theory Spec2Isabelle
  imports Complex_Main
begin

section \<open>ContactSequenceWrapper: swing splines and centroidal trajectories\<close>

text \<open>
  A shallow embedding of \<^verbatim>\<open>contact_sequence_wrapper.py\<close>. Scalars (timestamps, state and
  control samples, the mass) are values of one type \<open>'a\<close>; the definitions ask of it only
  the operations the code applies (\<open>0\<close>, \<open>*\<close>, and field arithmetic for \<open>linspace\<close>), so every
  statement holds for whatever multiplication the scalar type carries. Equality of
  timestamps is HOL equality.
\<close>

subsection \<open>Errors\<close>

text \<open>
  Every exception is a value. \<open>ValueError\<close> is numpy's shape mismatch on assignment,
  \<open>KeyError\<close> a missing dictionary key, \<open>IndexError\<close> an index out of range, and
  \<open>ExternalError\<close> whatever a collaborator (kinematics engine, fitting routine) raises.
\<close>

datatype error = ValueError | KeyError string | IndexError | ExternalError string

definition bindE :: "error + 'x \<Rightarrow> ('x \<Rightarrow> error + 'y) \<Rightarrow> error + 'y" where
  "bindE r g = (case r of Inl e \<Rightarrow> Inl e | Inr x \<Rightarrow> g x)"

subsection \<open>Two-dimensional arrays\<close>

text \<open>
  A numpy array of shape \<open>(nrows, ncols)\<close>: the column count is kept beside the rows, since
  an array with no rows still has a width that numpy checks on assignment.
\<close>

record 'a array2 =
  ncols :: nat
  rows :: "'a list list"

definition nrows :: "'a array2 \<Rightarrow> nat" where
  "nrows A = length (rows A)"

text \<open>\<^verbatim>\<open>np.zeros((r, c))\<close>\<close>

definition zeros :: "nat \<Rightarrow> nat \<Rightarrow> ('a::zero) array2" where
  "zeros r c = \<lparr>ncols = c, rows = replicate r (replicate c 0)\<rparr>"

text \<open>\<^verbatim>\<open>A[:, a:b]\<close>: slices clip to the width.\<close>

definition col_slice :: "nat \<Rightarrow> nat \<Rightarrow> 'a array2 \<Rightarrow> 'a array2" where
  "col_slice a b A =
     \<lparr>ncols = min b (ncols A) - min a (ncols A),
      rows = map (\<lambda>r. take (b - a) (drop a r)) (rows A)\<rparr>"

text \<open>\<^verbatim>\<open>A[:, -k:]\<close> for a positive constant \<open>k\<close>: the last \<open>k\<close> columns, all of them when
  the array is narrower.\<close>

definition last_cols :: "nat \<Rightarrow> 'a array2 \<Rightarrow> 'a array2" where
  "last_cols k A = col_slice (ncols A - k) (ncols A) A"

text \<open>\<^verbatim>\<open>c * A\<close>\<close>

definition scale :: "('a::times) \<Rightarrow> 'a array2 \<Rightarrow> 'a array2" where
  "scale c A = A\<lparr>rows := map (map (\<lambda>v. c * v)) (rows A)\<rparr>"

text \<open>
  \<^verbatim>\<open>np.array(list_of_rows)\<close>. For an empty list numpy gives the one-dimensional shape
  \<open>(0,)\<close>; against a two-dimensional target it broadcasts as a trailing dimension of
  size 0, which is what width 0 stands for here.
\<close>

definition np_array :: "'a list list \<Rightarrow> 'a array2" where
  "np_array rs = \<lparr>ncols = (case rs of [] \<Rightarrow> 0 | r # _ \<Rightarrow> length r), rows = rs\<rparr>"

text \<open>
  \<^verbatim>\<open>A[r0:r1, c0:c1] = V\<close>. Both slices clip to the shape of \<open>A\<close>. numpy broadcasts \<open>V\<close>
  to the shape of the target block: each dimension of \<open>V\<close> either equals the block's or is
  1; otherwise the assignment raises \<open>ValueError\<close>.
\<close>

definition set_block ::
  "'a array2 \<Rightarrow> nat \<Rightarrow> nat \<Rightarrow> nat \<Rightarrow> nat \<Rightarrow> 'a array2 \<Rightarrow> error + 'a array2" where
  "set_block A r0 r1 c0 c1 V =
     (let a = min r0 (nrows A); b = max a (min r1 (nrows A));
          c = min c0 (ncols A); d = max c (min c1 (ncols A))
      in if (nrows V = b - a \<or> nrows V = 1) \<and> (ncols V = d - c \<or> ncols V = 1)
         then Inr (A\<lparr>rows :=
                map (\<lambda>i. if a \<le> i \<and> i < b
                          then map (\<lambda>j. if c \<le> j \<and> j < d
                                         then rows V ! (if nrows V = 1 then 0 else i - a)
                                                     ! (if ncols V = 1 then 0 else j - c)
                                         else rows A ! i ! j)
                                   [0..<ncols A]
                          else rows A ! i)
                    [0..<nrows A]\<rparr>)
         else Inl ValueError)"

subsection \<open>Ordered dictionaries\<close>

text \<open>
  An \<^verbatim>\<open>OrderedDict\<close> is an association list in insertion order. \<^verbatim>\<open>d.update([[k, v]])\<close>
  and \<^verbatim>\<open>d[k] = v\<close> replace the value of a key that is present, in place, and append a new
  key; \<^verbatim>\<open>d[k]\<close> raises \<open>KeyError\<close> on a missing key.
\<close>

fun od_update :: "string \<Rightarrow> 'v \<Rightarrow> (string \<times> 'v) list \<Rightarrow> (string \<times> 'v) list" where
  "od_update k v [] = [(k, v)]"
| "od_update k v ((k', v') # d) = (if k = k' then (k, v) # d else (k', v') # od_update k v d)"

definition od_get :: "(string \<times> 'v) list \<Rightarrow> string \<Rightarrow> error + 'v" where
  "od_get d k = (case map_of d k of None \<Rightarrow> Inl (KeyError k) | Some v \<Rightarrow> Inr v)"

definition od_keys :: "(string \<times> 'v) list \<Rightarrow> string list" where
  "od_keys d = map fst d"

subsection \<open>Conversions and duplicate removal\<close>

text \<open>
  Modelled from the spec: \<^verbatim>\<open>a2m\<close> and \<^verbatim>\<open>m2a\<close> (imported from the crocoddyl package) are not
  among the sources. The spec treats a segment's state, derivative and control
  trajectories as arrays of sample rows and the interpolant's arguments as the timestamp,
  value and derivative rows, so both conversions hand the table on as it is.
\<close>

definition a2m :: "'x \<Rightarrow> 'x" where
  "a2m a = a"

definition m2a :: "'x \<Rightarrow> 'x" where
  "m2a m = m"

text \<open>
  Modelled from the spec: \<^verbatim>\<open>findDuplicates\<close> (module \<^verbatim>\<open>spline_utils\<close>) is not among the sources.
  The spec: scan the timeline once; any timestamp equal to an already-seen timestamp is
  marked a duplicate; the duplicate set holds the indices whose timestamp equals a
  previous timestamp.
\<close>

fun findDuplicates_scan :: "'a list \<Rightarrow> nat \<Rightarrow> 'a list \<Rightarrow> nat list" where
  "findDuplicates_scan seen i [] = []"
| "findDuplicates_scan seen i (t # ts) =
     (if t \<in> set seen then i # findDuplicates_scan seen (Suc i) ts
      else findDuplicates_scan (t # seen) (Suc i) ts)"

definition findDuplicates :: "'a list \<Rightarrow> nat list" where
  "findDuplicates t_traj = findDuplicates_scan [] 0 t_traj"

text \<open>
  Modelled from the spec: \<^verbatim>\<open>removeDuplicates\<close> (module \<^verbatim>\<open>spline_utils\<close>) is not among the
  sources. The spec: remove all duplicate-marked rows, in one pass, preserving the
  relative order of the remaining rows. It is applied to the timeline (a list of
  timestamps) and to every array (its list of rows).
\<close>

fun removeDuplicates_from :: "nat \<Rightarrow> 'x list \<Rightarrow> nat list \<Rightarrow> 'x list" where
  "removeDuplicates_from i [] duplicates = []"
| "removeDuplicates_from i (x # xs) duplicates =
     (if i \<in> set duplicates then removeDuplicates_from (Suc i) xs duplicates
      else x # removeDuplicates_from (Suc i) xs duplicates)"

definition removeDuplicates :: "'x list \<Rightarrow> nat list \<Rightarrow> 'x list" where
  "removeDuplicates arr duplicates = removeDuplicates_from 0 arr duplicates"

definition removeDuplicates2 :: "'a array2 \<Rightarrow> nat list \<Rightarrow> 'a array2" where
  "removeDuplicates2 A duplicates = A\<lparr>rows := removeDuplicates (rows A) duplicates\<rparr>"

subsection \<open>Data of the wrapper\<close>

text \<open>One segment of the contact sequence: a time axis and three sample arrays.\<close>

record 'a ms_interval =
  time_trajectory :: "'a list"
  state_trajectory :: "'a array2"
  dot_state_trajectory :: "'a array2"
  control_trajectory :: "'a array2"

record 'a contact_sequence =
  ms_interval_data :: "'a ms_interval list"

text \<open>
  The interpolant is built by the external \<^verbatim>\<open>CubicHermiteSpline\<close>; it is kept as the data it
  was constructed from.
\<close>

datatype 'a spline = CubicHermiteSpline (abscissa: "'a list") (points: "'a array2") (slopes: "'a array2")

text \<open>
  Modelled from the spec: the classes \<^verbatim>\<open>CentroidalPhi\<close> and \<^verbatim>\<open>EESplines\<close> (module
  \<^verbatim>\<open>centroidal_phi\<close>) are not among the sources. The centroidal result container holds one
  interpolant for the centre-of-mass motion, one for the angular momentum, and one per
  contact patch; the end-effector container is a dictionary from patch name to
  interpolant. \<open>None\<close> stands for an entry not yet assigned.
\<close>

record 'a centroidal_phi =
  com_vcom :: "'a spline option"
  hg :: "'a spline option"
  forces :: "(string \<times> 'a spline) list"

record 'a wrapper =
  cs :: "'a contact_sequence"
  ee_map :: "(string \<times> string) list"
  ee_splines :: "(string \<times> 'a spline) list option"
  centroidalPhi :: "unit option"
  phi_c :: "'a centroidal_phi"

text \<open>The local classes \<^verbatim>\<open>PhiC\<close> and \<^verbatim>\<open>PhiC2\<close>: bags of sample arrays.\<close>

record 'a phic =
  phi_f :: "(string \<times> 'a array2) list"
  phi_df :: "(string \<times> 'a array2) list"
  phi_com_vcom :: "'a array2"
  phi_vcom_acom :: "'a array2"
  phi_hg :: "'a array2"
  phi_dhg :: "'a array2"

text \<open>
  The kinematics engine (pinocchio) is external: its operations are parameters. An
  operation that updates the robot data returns the updated data; each may raise.
\<close>

record ('m, 'd, 'a) engine =
  nq :: "'m \<Rightarrow> nat"
  nv :: "'m \<Rightarrow> nat"
  neutral :: "'m \<Rightarrow> 'a list"
  crba :: "'m \<Rightarrow> 'd \<Rightarrow> 'a list \<Rightarrow> error + ('a list list \<times> 'd)"
  forwardKinematics :: "'m \<Rightarrow> 'd \<Rightarrow> 'a list \<Rightarrow> 'a list \<Rightarrow> error + 'd"
  getFrameId :: "'m \<Rightarrow> string \<Rightarrow> error + nat"
  updateFramePlacement :: "'m \<Rightarrow> 'd \<Rightarrow> nat \<Rightarrow> error + (('a \<times> 'a \<times> 'a) \<times> 'd)"
  getFrameVelocity :: "'m \<Rightarrow> 'd \<Rightarrow> nat \<Rightarrow> error + ('a \<times> 'a \<times> 'a)"

subsection \<open>createCentroidalPhi\<close>

text \<open>The fixed table \<^verbatim>\<open>range_def\<close> (lines 45 to 49).\<close>

definition range_def :: "(string \<times> nat list) list" where
  "range_def =
     od_update ''LH_patch'' [18..<24]
       (od_update ''RH_patch'' [12..<18]
         (od_update ''LF_patch'' [6..<12]
           (od_update ''RF_patch'' [0..<6] [])))"

text \<open>The body of class \<^verbatim>\<open>PhiC\<close> (lines 62 to 72).\<close>

fun PhiC_dict :: "string list \<Rightarrow> nat \<Rightarrow> (string \<times> ('a::zero) array2) list \<Rightarrow> (string \<times> 'a array2) list" where
  "PhiC_dict [] N d = d"
| "PhiC_dict (patch # ps) N d = PhiC_dict ps N (od_update patch (zeros N 6) d)"

definition PhiC :: "string list \<Rightarrow> nat \<Rightarrow> ('a::zero) phic" where
  "PhiC patch_names N =
     \<lparr>phi_f = PhiC_dict patch_names N [], phi_df = PhiC_dict patch_names N [],
      phi_com_vcom = zeros N 6, phi_vcom_acom = zeros N 6,
      phi_hg = zeros N 6, phi_dhg = zeros N 6\<rparr>"

text \<open>\<^verbatim>\<open>f_poly(t, r)\<close> and \<^verbatim>\<open>f_dpoly(t, r)\<close> (lines 95 to 99): indexing the list of fitted
  functions raises \<open>IndexError\<close> beyond its length.\<close>

fun f_poly :: "('a \<Rightarrow> 'a) list \<Rightarrow> 'a \<Rightarrow> nat list \<Rightarrow> error + 'a list" where
  "f_poly poly_u t [] = Inr []"
| "f_poly poly_u t (i # r) =
     (if i < length poly_u
      then bindE (f_poly poly_u t r) (\<lambda>vs. Inr ((poly_u ! i) t # vs))
      else Inl IndexError)"

text \<open>\<^verbatim>\<open>[f_poly(t, range_def[patch]) for t in tt]\<close>: the table lookup is evaluated once
  per sample time, so not at all when \<open>tt\<close> is empty.\<close>

fun patch_rows :: "('a \<Rightarrow> 'a) list \<Rightarrow> string \<Rightarrow> 'a list \<Rightarrow> error + 'a list list" where
  "patch_rows poly_u patch [] = Inr []"
| "patch_rows poly_u patch (t # tt) =
     bindE (od_get range_def patch) (\<lambda>r.
     bindE (f_poly poly_u t r) (\<lambda>row.
     bindE (patch_rows poly_u patch tt) (\<lambda>rest. Inr (row # rest))))"

text \<open>The loop over the patches (lines 101 to 103).\<close>

fun fill_patches ::
  "('a \<Rightarrow> 'a) list \<Rightarrow> ('a \<Rightarrow> 'a) list \<Rightarrow> 'a list \<Rightarrow> nat \<Rightarrow> nat \<Rightarrow> string list \<Rightarrow>
   (string \<times> 'a array2) list \<times> (string \<times> 'a array2) list \<Rightarrow>
   error + ((string \<times> 'a array2) list \<times> (string \<times> 'a array2) list)" where
  "fill_patches poly_u dpoly_u tt n nt [] fd = Inr fd"
| "fill_patches poly_u dpoly_u tt n nt (patch # ps) fd =
     bindE (patch_rows poly_u patch tt) (\<lambda>F.
     bindE (od_get (fst fd) patch) (\<lambda>A.
     bindE (set_block A n (n + nt) 0 (ncols A) (np_array F)) (\<lambda>A'.
     bindE (patch_rows dpoly_u patch tt) (\<lambda>dF.
     bindE (od_get (snd fd) patch) (\<lambda>B.
     bindE (set_block B n (n + nt) 0 (ncols B) (np_array dF)) (\<lambda>B'.
     fill_patches poly_u dpoly_u tt n nt ps
       (od_update patch A' (fst fd), od_update patch B' (snd fd))))))))"

text \<open>
  One turn of the loop over the segments (lines 78 to 105). \<open>polyfitND\<close> (module
  \<^verbatim>\<open>spline_utils\<close>, a least-squares fit) is a parameter: it returns, per control column, the
  fitted function and its derivative, or raises.
\<close>

definition fill_segment ::
  "('a list \<Rightarrow> 'a array2 \<Rightarrow> error + (('a \<Rightarrow> 'a) list \<times> ('a \<Rightarrow> 'a) list)) \<Rightarrow>
   ('a::times) \<Rightarrow> string list \<Rightarrow> 'a list \<Rightarrow> nat \<Rightarrow> 'a phic \<Rightarrow> 'a ms_interval \<Rightarrow>
   error + ('a phic \<times> nat)" where
  "fill_segment polyfitND mass patch_names t_traj n phi spl =
     (let x = m2a (state_trajectory spl);
          dx = m2a (dot_state_trajectory spl);
          u = m2a (control_trajectory spl);
          nt = nrows x;
          tt = take nt (drop n t_traj)
      in
      bindE (set_block (phi_com_vcom phi) n (n + nt) 0 (ncols (phi_com_vcom phi)) (col_slice 0 6 x)) (\<lambda>cv.
      bindE (set_block (phi_vcom_acom phi) n (n + nt) 0 (ncols (phi_vcom_acom phi)) (col_slice 0 6 dx)) (\<lambda>va.
      bindE (set_block (phi_hg phi) n (n + nt) 3 (ncols (phi_hg phi)) (last_cols 3 x)) (\<lambda>h1.
      bindE (set_block (phi_dhg phi) n (n + nt) 3 (ncols (phi_dhg phi)) (last_cols 3 dx)) (\<lambda>d1.
      bindE (set_block h1 n (n + nt) 0 3 (scale mass (col_slice 3 6 x))) (\<lambda>h2.
      bindE (set_block d1 n (n + nt) 0 3 (scale mass (col_slice 3 6 dx))) (\<lambda>d2.
      bindE (polyfitND tt u) (\<lambda>fit.
      bindE (fill_patches (fst fit) (snd fit) tt n nt patch_names (phi_f phi, phi_df phi)) (\<lambda>fd.
      Inr (\<lparr>phi_f = fst fd, phi_df = snd fd, phi_com_vcom = cv, phi_vcom_acom = va,
             phi_hg = h2, phi_dhg = d2\<rparr>, n + nt))))))))))"

fun fill_intervals ::
  "('a list \<Rightarrow> 'a array2 \<Rightarrow> error + (('a \<Rightarrow> 'a) list \<times> ('a \<Rightarrow> 'a) list)) \<Rightarrow>
   ('a::times) \<Rightarrow> string list \<Rightarrow> 'a list \<Rightarrow> 'a ms_interval list \<Rightarrow> nat \<Rightarrow> 'a phic \<Rightarrow>
   error + 'a phic" where
  "fill_intervals polyfitND mass patch_names t_traj [] n phi = Inr phi"
| "fill_intervals polyfitND mass patch_names t_traj (spl # spls) n phi =
     bindE (fill_segment polyfitND mass patch_names t_traj n phi spl) (\<lambda>r.
     fill_intervals polyfitND mass patch_names t_traj spls (snd r) (fst r))"

text \<open>Lines 53 to 105: the concatenated timeline and the filled sample arrays.\<close>

definition phi_samples ::
  "('a list \<Rightarrow> 'a array2 \<Rightarrow> error + (('a \<Rightarrow> 'a) list \<times> ('a \<Rightarrow> 'a) list)) \<Rightarrow>
   ('a::{zero,times}) \<Rightarrow> string list \<Rightarrow> 'a ms_interval list \<Rightarrow> error + ('a list \<times> 'a phic)" where
  "phi_samples polyfitND mass patch_names spls =
     (let t_traj = concat (map time_trajectory spls); N = length t_traj
      in bindE (fill_intervals polyfitND mass patch_names t_traj spls 0 (PhiC patch_names N))
           (\<lambda>phi. Inr (t_traj, phi)))"

text \<open>The body of class \<^verbatim>\<open>PhiC2\<close> (lines 109 to 119).\<close>

fun PhiC2_dicts ::
  "'a phic \<Rightarrow> nat list \<Rightarrow> string list \<Rightarrow>
   (string \<times> 'a array2) list \<times> (string \<times> 'a array2) list \<Rightarrow>
   error + ((string \<times> 'a array2) list \<times> (string \<times> 'a array2) list)" where
  "PhiC2_dicts phi duplicates [] fd = Inr fd"
| "PhiC2_dicts phi duplicates (patch # ps) fd =
     bindE (od_get (phi_f phi) patch) (\<lambda>A.
     bindE (od_get (phi_df phi) patch) (\<lambda>B.
     PhiC2_dicts phi duplicates ps
       (od_update patch (removeDuplicates2 A duplicates) (fst fd),
        od_update patch (removeDuplicates2 B duplicates) (snd fd))))"

definition PhiC2 :: "string list \<Rightarrow> 'a phic \<Rightarrow> nat list \<Rightarrow> error + 'a phic" where
  "PhiC2 patch_names phi duplicates =
     bindE (PhiC2_dicts phi duplicates patch_names ([], [])) (\<lambda>fd.
     Inr \<lparr>phi_f = fst fd, phi_df = snd fd,
          phi_com_vcom = removeDuplicates2 (phi_com_vcom phi) duplicates,
          phi_vcom_acom = removeDuplicates2 (phi_vcom_acom phi) duplicates,
          phi_hg = removeDuplicates2 (phi_hg phi) duplicates,
          phi_dhg = removeDuplicates2 (phi_dhg phi) duplicates\<rparr>)"

text \<open>The last loop (lines 128 and 129) writes into \<^verbatim>\<open>self.phi_c.forces\<close> patch by patch:
  it returns the container as it stands when a lookup raises.\<close>

fun assign_forces ::
  "'a list \<Rightarrow> 'a phic \<Rightarrow> string list \<Rightarrow> 'a centroidal_phi \<Rightarrow> error option \<times> 'a centroidal_phi" where
  "assign_forces t_traj phi2 [] pc = (None, pc)"
| "assign_forces t_traj phi2 (patch # ps) pc =
     (case od_get (phi_f phi2) patch of Inl e \<Rightarrow> (Some e, pc)
      | Inr A \<Rightarrow>
     (case od_get (phi_df phi2) patch of Inl e \<Rightarrow> (Some e, pc)
      | Inr B \<Rightarrow>
        assign_forces t_traj phi2 ps
          (pc\<lparr>forces := od_update patch (CubicHermiteSpline (a2m t_traj) (a2m A) (a2m B)) (forces pc)\<rparr>)))"

text \<open>\<^verbatim>\<open>M[0, 0]\<close> of the joint-space inertia matrix.\<close>

definition mat00 :: "'a list list \<Rightarrow> error + 'a" where
  "mat00 M = (case M of (v # _) # _ \<Rightarrow> Inr v | _ \<Rightarrow> Inl IndexError)"

text \<open>Lines 51 to 123, after the mass is known: everything that touches only locals.\<close>

definition centroidal_arrays ::
  "('a list \<Rightarrow> 'a array2 \<Rightarrow> error + (('a \<Rightarrow> 'a) list \<times> ('a \<Rightarrow> 'a) list)) \<Rightarrow>
   ('a::{zero,times}) \<Rightarrow> string list \<Rightarrow> 'a ms_interval list \<Rightarrow> error + ('a list \<times> 'a phic)" where
  "centroidal_arrays polyfitND mass patch_names spls =
     bindE (phi_samples polyfitND mass patch_names spls) (\<lambda>s.
     (let duplicates = findDuplicates (fst s)
      in bindE (PhiC2 patch_names (snd s) duplicates) (\<lambda>phi2.
         Inr (removeDuplicates (fst s) duplicates, phi2))))"

text \<open>
  The method. It returns the error raised (if any), the wrapper and the robot data as
  they stand on return. A failed engine call is taken to leave the robot data as it was.
\<close>

definition createCentroidalPhi ::
  "('m, 'd, 'a::{zero,times}) engine \<Rightarrow>
   ('a list \<Rightarrow> 'a array2 \<Rightarrow> error + (('a \<Rightarrow> 'a) list \<times> ('a \<Rightarrow> 'a) list)) \<Rightarrow>
   'a wrapper \<Rightarrow> 'm \<Rightarrow> 'd \<Rightarrow> error option \<times> 'a wrapper \<times> 'd" where
  "createCentroidalPhi E polyfitND self rmodel rdata =
     (let patch_names = od_keys (ee_map self) in
      case crba E rmodel rdata (neutral E rmodel) of
        Inl e \<Rightarrow> (Some e, self, rdata)
      | Inr Md \<Rightarrow>
          (case bindE (mat00 (fst Md)) (\<lambda>mass.
                  centroidal_arrays polyfitND mass patch_names
                    (butlast (ms_interval_data (cs self)))) of
             Inl e \<Rightarrow> (Some e, self, snd Md)
           | Inr tp \<Rightarrow>
               (let pc = (phi_c self)
                      \<lparr>com_vcom := Some (CubicHermiteSpline (a2m (fst tp))
                                    (a2m (phi_com_vcom (snd tp))) (a2m (phi_vcom_acom (snd tp)))),
                       hg := Some (CubicHermiteSpline (a2m (fst tp))
                                    (a2m (phi_hg (snd tp))) (a2m (phi_dhg (snd tp))))\<rparr>;
                    r = assign_forces (fst tp) (snd tp) patch_names pc
                in (fst r, self\<lparr>phi_c := snd r\<rparr>, snd Md))))"

subsection \<open>createEESplines\<close>

text \<open>
  \<^verbatim>\<open>np.linspace(start, stop, num)\<close>: \<open>num\<close> evenly spaced samples, the last one set to
  \<open>stop\<close>; empty for \<open>num = 0\<close>.
\<close>

definition linspace :: "('a::field) \<Rightarrow> 'a \<Rightarrow> nat \<Rightarrow> 'a list" where
  "linspace start stop num =
     (if num = 0 then []
      else if num = 1 then [start]
      else map (\<lambda>i. start + of_nat i * ((stop - start) / of_nat (num - 1))) [0..<num - 1] @ [stop])"

text \<open>\<^verbatim>\<open>v[-k:]\<close> for a variable \<open>k\<close>: \<^verbatim>\<open>v[-0:]\<close> is the whole vector.\<close>

definition last_n :: "nat \<Rightarrow> 'x list \<Rightarrow> 'x list" where
  "last_n k v = (if k = 0 then v else drop (length v - k) v)"

text \<open>\<^verbatim>\<open>p[:, i] = vec\<close> for a 3-vector and an array of three rows; the index raises beyond
  the width.\<close>

definition set_col :: "'a array2 \<Rightarrow> nat \<Rightarrow> 'a \<times> 'a \<times> 'a \<Rightarrow> error + 'a array2" where
  "set_col A i vec =
     (if i < ncols A
      then Inr (A\<lparr>rows := map2 (\<lambda>r v. r[i := v]) (rows A) [fst vec, fst (snd vec), snd (snd vec)]\<rparr>)
      else Inl IndexError)"

text \<open>\<^verbatim>\<open>rmodel.getFrameId(self.ee_map[patch])\<close>\<close>

definition frame_of :: "('m, 'd, 'a) engine \<Rightarrow> 'm \<Rightarrow> (string \<times> string) list \<Rightarrow> string \<Rightarrow> error + nat" where
  "frame_of E rmodel em patch = bindE (od_get em patch) (getFrameId E rmodel)"

text \<open>
  Lines 33 to 38: one sample of one end effector. The state is the position array, the
  velocity array and the robot data, as they stand when the step returns or raises.
\<close>

definition ee_sample ::
  "('m, 'd, 'a) engine \<Rightarrow> 'm \<Rightarrow> (string \<times> string) list \<Rightarrow> 'a list list \<Rightarrow> string \<Rightarrow> nat \<Rightarrow>
   'a array2 \<times> 'a array2 \<times> 'd \<Rightarrow> error option \<times> 'a array2 \<times> 'a array2 \<times> 'd" where
  "ee_sample E rmodel em xs patch i st =
     (let p = fst st; m = fst (snd st); rdata = snd (snd st);
          q = a2m (take (nq E rmodel) (xs ! i));
          v = a2m (last_n (nv E rmodel) (xs ! i))
      in case forwardKinematics E rmodel rdata q v of
           Inl e \<Rightarrow> (Some e, p, m, rdata)
         | Inr rdata1 \<Rightarrow>
        (case frame_of E rmodel em patch of
           Inl e \<Rightarrow> (Some e, p, m, rdata1)
         | Inr fid \<Rightarrow>
        (case updateFramePlacement E rmodel rdata1 fid of
           Inl e \<Rightarrow> (Some e, p, m, rdata1)
         | Inr pl \<Rightarrow>
        (case set_col p i (m2a (fst pl)) of
           Inl e \<Rightarrow> (Some e, p, m, snd pl)
         | Inr p' \<Rightarrow>
        (case frame_of E rmodel em patch of
           Inl e \<Rightarrow> (Some e, p', m, snd pl)
         | Inr fid' \<Rightarrow>
        (case getFrameVelocity E rmodel (snd pl) fid' of
           Inl e \<Rightarrow> (Some e, p', m, snd pl)
         | Inr lin \<Rightarrow>
        (case set_col m i (m2a lin) of
           Inl e \<Rightarrow> (Some e, p', m, snd pl)
         | Inr m' \<Rightarrow> (None, p', m', snd pl))))))))"

text \<open>The inner loop (lines 32 to 39): after each sample the spline of the patch is
  rebuilt from the arrays as they stand and stored.\<close>

fun ee_inner ::
  "('m, 'd, 'a) engine \<Rightarrow> 'm \<Rightarrow> (string \<times> string) list \<Rightarrow> 'a list list \<Rightarrow> string \<Rightarrow> 'a list \<Rightarrow>
   nat list \<Rightarrow> ('a array2 \<times> 'a array2 \<times> 'd) \<times> (string \<times> 'a spline) list \<Rightarrow>
   error option \<times> ('a array2 \<times> 'a array2 \<times> 'd) \<times> (string \<times> 'a spline) list" where
  "ee_inner E rmodel em xs patch absc [] sd = (None, sd)"
| "ee_inner E rmodel em xs patch absc (i # is) sd =
     (case ee_sample E rmodel em xs patch i (fst sd) of
        (Some e, st) \<Rightarrow> (Some e, st, snd sd)
      | (None, st) \<Rightarrow>
          ee_inner E rmodel em xs patch absc is
            (st, od_update patch (CubicHermiteSpline absc (fst st) (fst (snd st))) (snd sd)))"

text \<open>The outer loop over the patches (lines 29 to 39).\<close>

fun ee_outer ::
  "('m, 'd, 'a::zero) engine \<Rightarrow> 'm \<Rightarrow> (string \<times> string) list \<Rightarrow> 'a list list \<Rightarrow> 'a list \<Rightarrow> nat \<Rightarrow>
   string list \<Rightarrow> (string \<times> 'a spline) list \<times> 'd \<Rightarrow>
   error option \<times> (string \<times> 'a spline) list \<times> 'd" where
  "ee_outer E rmodel em xs absc N [] sd = (None, sd)"
| "ee_outer E rmodel em xs absc N (patch # ps) sd =
     (case ee_inner E rmodel em xs patch absc [0..<N] ((zeros 3 N, zeros 3 N, snd sd), fst sd) of
        (Some e, st, d) \<Rightarrow> (Some e, d, snd (snd st))
      | (None, st, d) \<Rightarrow> ee_outer E rmodel em xs absc N ps (d, snd (snd st)))"

definition createEESplines ::
  "('m, 'd, 'a::field) engine \<Rightarrow> 'a wrapper \<Rightarrow> 'm \<Rightarrow> 'd \<Rightarrow> 'a list list \<Rightarrow> 'a \<Rightarrow>
   error option \<times> 'a wrapper \<times> 'd" where
  "createEESplines E self rmodel rdata xs t_sampling =
     (let N = length xs;
          absc = a2m (linspace 0 (t_sampling * (of_nat N - 1)) N);
          r = ee_outer E rmodel (ee_map self) xs absc N (od_keys (ee_map self)) ([], rdata)
      in (fst r, self\<lparr>ee_splines := Some (fst (snd r))\<rparr>, snd (snd r)))"

text \<open>
  The variant the refinement claim compares with: the same sampling, but the spline of a
  patch is built exactly once, after its sampling loop.
\<close>

fun ee_inner_once ::
  "('m, 'd, 'a) engine \<Rightarrow> 'm \<Rightarrow> (string \<times> string) list \<Rightarrow> 'a list list \<Rightarrow> string \<Rightarrow>
   nat list \<Rightarrow> 'a array2 \<times> 'a array2 \<times> 'd \<Rightarrow> error option \<times> 'a array2 \<times> 'a array2 \<times> 'd" where
  "ee_inner_once E rmodel em xs patch [] st = (None, st)"
| "ee_inner_once E rmodel em xs patch (i # is) st =
     (case ee_sample E rmodel em xs patch i st of
        (Some e, st') \<Rightarrow> (Some e, st')
      | (None, st') \<Rightarrow> ee_inner_once E rmodel em xs patch is st')"

fun ee_outer_once ::
  "('m, 'd, 'a::zero) engine \<Rightarrow> 'm \<Rightarrow> (string \<times> string) list \<Rightarrow> 'a list list \<Rightarrow> 'a list \<Rightarrow> nat \<Rightarrow>
   string list \<Rightarrow> (string \<times> 'a spline) list \<times> 'd \<Rightarrow>
   error option \<times> (string \<times> 'a spline) list \<times> 'd" where
  "ee_outer_once E rmodel em xs absc N [] sd = (None, sd)"
| "ee_outer_once E rmodel em xs absc N (patch # ps) sd =
     (case ee_inner_once E rmodel em xs patch [0..<N] (zeros 3 N, zeros 3 N, snd sd) of
        (Some e, st) \<Rightarrow> (Some e, fst sd, snd (snd st))
      | (None, st) \<Rightarrow>
          ee_outer_once E rmodel em xs absc N ps
            (od_update patch (CubicHermiteSpline absc (fst st) (fst (snd st))) (fst sd),
             snd (snd st)))"

definition createEESplines_once ::
  "('m, 'd, 'a::field) engine \<Rightarrow> 'a wrapper \<Rightarrow> 'm \<Rightarrow> 'd \<Rightarrow> 'a list list \<Rightarrow> 'a \<Rightarrow>
   error option \<times> 'a wrapper \<times> 'd" where
  "createEESplines_once E self rmodel rdata xs t_sampling =
     (let N = length xs;
          absc = a2m (linspace 0 (t_sampling * (of_nat N - 1)) N);
          r = ee_outer_once E rmodel (ee_map self) xs absc N (od_keys (ee_map self)) ([], rdata)
      in (fst r, self\<lparr>ee_splines := Some (fst (snd r))\<rparr>, snd (snd r)))"

subsection \<open>Notions used in the statements\<close>

text \<open>The indices a deduplication retains: those whose timestamp occurs at no earlier
  index, in increasing order.\<close>

definition first_occurrences :: "'a list \<Rightarrow> nat list" where
  "first_occurrences t = filter (\<lambda>i. t ! i \<notin> set (take i t)) [0..<length t]"

text \<open>The rows of an array at the given indices, in the order given.\<close>

definition take_rows :: "nat list \<Rightarrow> 'a array2 \<Rightarrow> 'a array2" where
  "take_rows keep A = A\<lparr>rows := map (\<lambda>i. rows A ! i) keep\<rparr>"

text \<open>Shape invariants of the loop over the segments: every array has \<open>N\<close> rows and six
  columns, and the dictionaries have an entry for every patch in \<open>S\<close>.\<close>

definition dict_shape :: "nat \<Rightarrow> string set \<Rightarrow> (string \<times> 'a array2) list \<Rightarrow> bool" where
  "dict_shape N S d \<longleftrightarrow>
     (\<forall>p\<in>S. \<exists>A. od_get d p = Inr A) \<and>
     (\<forall>p A. od_get d p = Inr A \<longrightarrow> nrows A = N \<and> ncols A = 6)"

definition phic_shape :: "nat \<Rightarrow> string set \<Rightarrow> 'a phic \<Rightarrow> bool" where
  "phic_shape N S phi \<longleftrightarrow>
     nrows (phi_com_vcom phi) = N \<and> ncols (phi_com_vcom phi) = 6 \<and>
     nrows (phi_vcom_acom phi) = N \<and> ncols (phi_vcom_acom phi) = 6 \<and>
     nrows (phi_hg phi) = N \<and> ncols (phi_hg phi) = 6 \<and>
     nrows (phi_dhg phi) = N \<and> ncols (phi_dhg phi) = 6 \<and>
     dict_shape N S (phi_f phi) \<and> dict_shape N S (phi_df phi)"

text \<open>
  A well-formed segment, as the contact-sequence container provides it: the state and
  state-derivative arrays have one row per timestamp, and every row has the array's width.
\<close>

definition wf_interval :: "'a ms_interval \<Rightarrow> bool" where
  "wf_interval spl \<longleftrightarrow>
     nrows (state_trajectory spl) = length (time_trajectory spl) \<and>
     nrows (dot_state_trajectory spl) = length (time_trajectory spl) \<and>
     (\<forall>r\<in>set (rows (state_trajectory spl)). length r = ncols (state_trajectory spl)) \<and>
     (\<forall>r\<in>set (rows (dot_state_trajectory spl)). length r = ncols (dot_state_trajectory spl))"

text \<open>The row of the concatenated timeline at which segment \<open>k\<close> starts.\<close>

definition offset :: "'a ms_interval list \<Rightarrow> nat \<Rightarrow> nat" where
  "offset spls k = length (concat (map time_trajectory (take k spls)))"

text \<open>The angular-momentum row of a state row: mass times columns 3 to 5, then the last
  three columns.\<close>

definition hg_row :: "('a::times) \<Rightarrow> 'a list \<Rightarrow> 'a list" where
  "hg_row mass x = map (\<lambda>v. mass * v) (take 3 (drop 3 x)) @ drop (length x - 3) x"

text \<open>An engine whose data-updating operations hand the robot data back unchanged.\<close>

definition engine_keeps_data :: "('m, 'd, 'a) engine \<Rightarrow> bool" where
  "engine_keeps_data E \<longleftrightarrow>
     (\<forall>m d q r. crba E m d q = Inr r \<longrightarrow> snd r = d) \<and>
     (\<forall>m d q v d'. forwardKinematics E m d q v = Inr d' \<longrightarrow> d' = d) \<and>
     (\<forall>m d i r. updateFramePlacement E m d i = Inr r \<longrightarrow> snd r = d)"

subsection \<open>Example data\<close>

text \<open>
  Concrete inputs on which the statements below are evaluated. The example fit returns,
  per control column, the constant function through the column's first sample and the zero
  derivative (the least-squares cubic of a column that is constant over the segment); it
  raises on a segment with no sample. The example engine reports mass 2, and its forward
  kinematics stores the configuration and velocity in the robot data, a list of scalars.
\<close>

definition example_fit :: "rat list \<Rightarrow> rat array2 \<Rightarrow> error + ((rat \<Rightarrow> rat) list \<times> (rat \<Rightarrow> rat) list)" where
  "example_fit tt u = (case rows u of [] \<Rightarrow> Inl (ExternalError ''polyfit'')
     | r # _ \<Rightarrow> Inr (map (\<lambda>c. (\<lambda>t. c)) r, map (\<lambda>c. (\<lambda>t. 0)) r))"

definition example_engine :: "(unit, rat list, rat) engine" where
  "example_engine = \<lparr>nq = (\<lambda>_. 1), nv = (\<lambda>_. 1), neutral = (\<lambda>_. [0]),
     crba = (\<lambda>m d q. Inr ([[2]], d)),
     forwardKinematics = (\<lambda>m d q v. Inr (q @ v)),
     getFrameId = (\<lambda>m s. Inr 0),
     updateFramePlacement = (\<lambda>m d i. Inr ((d ! 0, 0, 0), d)),
     getFrameVelocity = (\<lambda>m d i. Inr (d ! 1, 0, 0))\<rparr>"

text \<open>An engine that only reads: every operation succeeds and leaves the data alone.\<close>

definition reading_engine :: "(unit, rat list, rat) engine" where
  "reading_engine = \<lparr>nq = (\<lambda>_. 1), nv = (\<lambda>_. 1), neutral = (\<lambda>_. [0]),
     crba = (\<lambda>m d q. Inr ([[2]], d)),
     forwardKinematics = (\<lambda>m d q v. Inr d),
     getFrameId = (\<lambda>m s. Inr 0),
     updateFramePlacement = (\<lambda>m d i. Inr ((0, 0, 0), d)),
     getFrameVelocity = (\<lambda>m d i. Inr (0, 0, 0))\<rparr>"

text \<open>A segment with time axis \<open>ts\<close>, nine state columns whose entries differ from row to
  row, and \<open>w\<close> control columns constant over the segment.\<close>

definition example_segment :: "rat list \<Rightarrow> rat \<Rightarrow> nat \<Rightarrow> rat ms_interval" where
  "example_segment ts b w = \<lparr>time_trajectory = ts,
      state_trajectory = \<lparr>ncols = 9, rows = map (\<lambda>t. map (\<lambda>j. b + 10 * t + of_nat j) [0..<9]) ts\<rparr>,
      dot_state_trajectory = \<lparr>ncols = 9, rows = map (\<lambda>t. map (\<lambda>j. b + 10 * t + of_nat j + 1) [0..<9]) ts\<rparr>,
      control_trajectory = \<lparr>ncols = w, rows = map (\<lambda>t. map (\<lambda>j. b + of_nat j) [0..<w]) ts\<rparr>\<rparr>"

text \<open>Two segments with time axes \<open>[0, 1, 2]\<close> and \<open>[2, 3, 4]\<close>, followed by the terminal
  segment the method leaves out; one contact patch.\<close>

definition example_wrapper :: "rat wrapper" where
  "example_wrapper = \<lparr>cs = \<lparr>ms_interval_data =
            [example_segment [0, 1, 2] 100 6, example_segment [2, 3, 4] 200 6, example_segment [] 0 6]\<rparr>,
         ee_map = [(''RF_patch'', ''rf'')], ee_splines = None, centroidalPhi = None,
         phi_c = \<lparr>com_vcom = None, hg = None, forces = []\<rparr>\<rparr>"

text \<open>The segments the example wrapper's centroidal method processes.\<close>

definition example_intervals :: "rat ms_interval list" where
  "example_intervals = [example_segment [0, 1, 2] 100 6, example_segment [2, 3, 4] 200 6]"

text \<open>A wrapper with the four patches of the fixed table and one processed segment of
  \<open>w\<close> control columns.\<close>

definition four_patch_wrapper :: "nat \<Rightarrow> rat wrapper" where
  "four_patch_wrapper w = \<lparr>cs = \<lparr>ms_interval_data =
            [example_segment [0, 1] 100 w, example_segment [] 0 w]\<rparr>,
         ee_map = [(''RF_patch'', ''rf''), (''LF_patch'', ''lf''), (''RH_patch'', ''rh''), (''LH_patch'', ''lh'')],
         ee_splines = None, centroidalPhi = None,
         phi_c = \<lparr>com_vcom = None, hg = None, forces = []\<rparr>\<rparr>"

text \<open>A wrapper whose end-effector map names a patch outside the fixed table, over the
  given segments; and a segment whose state arrays have only three columns.\<close>

definition unknown_patch_wrapper :: "rat ms_interval list \<Rightarrow> rat wrapper" where
  "unknown_patch_wrapper segs = \<lparr>cs = \<lparr>ms_interval_data = segs\<rparr>,
         ee_map = [(''XX_patch'', ''xx'')], ee_splines = None, centroidalPhi = None,
         phi_c = \<lparr>com_vcom = None, hg = None, forces = []\<rparr>\<rparr>"

definition narrow_segment :: "rat ms_interval" where
  "narrow_segment = \<lparr>time_trajectory = [0],
      state_trajectory = \<lparr>ncols = 3, rows = [[1, 2, 3]]\<rparr>,
      dot_state_trajectory = \<lparr>ncols = 3, rows = [[4, 5, 6]]\<rparr>,
      control_trajectory = \<lparr>ncols = 6, rows = [[0, 0, 0, 0, 0, 0]]\<rparr>\<rparr>"

section \<open>Properties\<close>

subsection \<open>Error monad and duplicate removal\<close>

lemma bindE_Inl [simp]: "bindE (Inl e) g = Inl e"
  by (simp add: bindE_def)

lemma bindE_Inr [simp]: "bindE (Inr x) g = g x"
  by (simp add: bindE_def)

lemma bindE_eq_Inr: "bindE r g = Inr y \<longleftrightarrow> (\<exists>x. r = Inr x \<and> g x = Inr y)"
  by (cases r) auto

lemma bindE_eq_Inl: "bindE r g = Inl e \<longleftrightarrow> (r = Inl e \<or> (\<exists>x. r = Inr x \<and> g x = Inl e))"
  by (cases r) auto

lemma removeDuplicates_from_eq:
  "removeDuplicates_from i xs ds = map (\<lambda>j. xs ! j) (filter (\<lambda>j. i + j \<notin> set ds) [0..<length xs])"
proof (induction xs arbitrary: i)
  case Nil
  show ?case by simp
next
  case (Cons x xs)
  have up: "[0..<length (x # xs)] = 0 # map Suc [0..<length xs]"
    by (simp add: upt_conv_Cons map_Suc_upt del: upt_Suc)
  show ?case
    unfolding up by (simp add: Cons.IH filter_map comp_def)
qed

lemma removeDuplicates_eq:
  "removeDuplicates xs ds = map (\<lambda>j. xs ! j) (filter (\<lambda>j. j \<notin> set ds) [0..<length xs])"
  by (simp add: removeDuplicates_def removeDuplicates_from_eq)

lemma upt_Suc_shift: "[0..<Suc n] = 0 # map Suc [0..<n]"
  by (simp add: upt_conv_Cons map_Suc_upt del: upt_Suc)

lemma findDuplicates_scan_eq:
  "findDuplicates_scan seen i ts =
     map (\<lambda>j. i + j) (filter (\<lambda>j. ts ! j \<in> set seen \<union> set (take j ts)) [0..<length ts])"
proof (induction ts arbitrary: seen i)
  case Nil
  show ?case by simp
next
  case (Cons t ts)
  have len: "[0..<length (t # ts)] = 0 # map Suc [0..<length ts]"
    using upt_Suc_shift[of "length ts"] by simp
  show ?case
  proof (cases "t \<in> set seen")
    case True
    then have "(\<lambda>x. ts ! x \<in> set seen \<or> ts ! x = t \<or> ts ! x \<in> set (take x ts))
             = (\<lambda>j. ts ! j \<in> set seen \<or> ts ! j \<in> set (take j ts))"
      by auto
    with True show ?thesis
      unfolding len by (simp add: Cons.IH filter_map comp_def)
  next
    case False
    have "(\<lambda>j. ts ! j = t \<or> ts ! j \<in> set seen \<or> ts ! j \<in> set (take j ts))
        = (\<lambda>x. ts ! x \<in> set seen \<or> ts ! x = t \<or> ts ! x \<in> set (take x ts))"
      by auto
    with False show ?thesis
      unfolding len by (simp add: Cons.IH filter_map comp_def)
  qed
qed

lemma findDuplicates_eq:
  "findDuplicates t = filter (\<lambda>j. t ! j \<in> set (take j t)) [0..<length t]"
  by (simp add: findDuplicates_def findDuplicates_scan_eq)

lemma findDuplicates_set:
  "set (findDuplicates t) = {j. j < length t \<and> t ! j \<in> set (take j t)}"
  by (auto simp: findDuplicates_eq)

lemma findDuplicates_distinct: "distinct (findDuplicates t)"
  by (simp add: findDuplicates_eq)

lemma in_set_take_iff: "x \<in> set (take j t) \<longleftrightarrow> (\<exists>i<j. i < length t \<and> t ! i = x)"
  by (auto simp: in_set_conv_nth)

lemma length_findDuplicates:
  "length (findDuplicates t) = card {i. i < length t \<and> (\<exists>j<i. t ! j = t ! i)}"
proof -
  have "length (findDuplicates t) = card (set (findDuplicates t))"
    by (simp add: distinct_card findDuplicates_distinct)
  also have "set (findDuplicates t) = {i. i < length t \<and> (\<exists>j<i. t ! j = t ! i)}"
    by (auto simp: findDuplicates_set in_set_take_iff)
  finally show ?thesis .
qed

lemma removeDuplicates_findDuplicates:
  "length xs = length t \<Longrightarrow>
   removeDuplicates xs (findDuplicates t) = map (\<lambda>i. xs ! i) (first_occurrences t)"
  unfolding removeDuplicates_eq first_occurrences_def findDuplicates_set
  by (rule arg_cong[where f = "map _"], rule filter_cong) auto

lemma length_first_occurrences:
  "length (first_occurrences t) = length t - length (findDuplicates t)"
proof -
  have "length (filter (\<lambda>j. t ! j \<in> set (take j t)) [0..<length t])
      + length (filter (\<lambda>j. \<not> t ! j \<in> set (take j t)) [0..<length t]) = length [0..<length t]"
    by (rule sum_length_filter_compl)
  then show ?thesis
    by (simp add: first_occurrences_def findDuplicates_eq)
qed

subsection \<open>Dictionaries and array shapes\<close>

declare a2m_def [simp] m2a_def [simp]

lemma od_get_od_update:
  "od_get (od_update k v d) k' = (if k' = k then Inr v else od_get d k')"
  by (induction d) (auto simp: od_get_def)

lemma od_get_Nil [simp]: "od_get [] k = Inl (KeyError k)"
  by (simp add: od_get_def)

lemma od_get_keys: "(\<exists>v. od_get d k = Inr v) \<longleftrightarrow> k \<in> set (od_keys d)"
  by (auto simp: od_get_def od_keys_def map_of_eq_None_iff split: option.splits)
   (metis map_of_eq_None_iff not_Some_eq)

lemma set_block_shape:
  "set_block A r0 r1 c0 c1 V = Inr A' \<Longrightarrow> nrows A' = nrows A \<and> ncols A' = ncols A"
  by (auto simp: set_block_def Let_def nrows_def split: if_splits)

lemma dict_shape_update:
  "dict_shape N S d \<Longrightarrow> nrows A = N \<Longrightarrow> ncols A = 6 \<Longrightarrow> dict_shape N S (od_update k A d)"
  by (auto simp: dict_shape_def od_get_od_update)

lemma dict_shape_get:
  "dict_shape N S d \<Longrightarrow> od_get d p = Inr A \<Longrightarrow> nrows A = N \<and> ncols A = 6"
  by (auto simp: dict_shape_def)

lemma fill_patches_shape:
  "fill_patches P dP tt n nt ps fd = Inr fd' \<Longrightarrow>
   dict_shape N S (fst fd) \<Longrightarrow> dict_shape N S (snd fd) \<Longrightarrow>
   dict_shape N S (fst fd') \<and> dict_shape N S (snd fd')"
proof (induction ps arbitrary: fd)
  case Nil
  then show ?case by simp
next
  case (Cons patch ps)
  from Cons.prems(1) obtain F A A' dF B B' where
    A: "od_get (fst fd) patch = Inr A"
    and A': "set_block A n (n + nt) 0 (ncols A) (np_array F) = Inr A'"
    and B: "od_get (snd fd) patch = Inr B"
    and B': "set_block B n (n + nt) 0 (ncols B) (np_array dF) = Inr B'"
    and rest: "fill_patches P dP tt n nt ps (od_update patch A' (fst fd), od_update patch B' (snd fd)) = Inr fd'"
    by (auto simp: bindE_eq_Inr)
  have "nrows A' = N \<and> ncols A' = 6"
    using dict_shape_get[OF Cons.prems(2) A] set_block_shape[OF A'] by simp
  moreover have "nrows B' = N \<and> ncols B' = 6"
    using dict_shape_get[OF Cons.prems(3) B] set_block_shape[OF B'] by simp
  ultimately show ?case
    using Cons.IH[OF rest] Cons.prems(2,3) by (simp add: dict_shape_update)
qed

lemma fill_segment_shape:
  assumes "fill_segment fit mass ps t n phi spl = Inr r" and "phic_shape N S phi"
  shows "phic_shape N S (fst r) \<and> snd r = n + nrows (state_trajectory spl)"
proof -
  from assms(1) obtain cv va h1 d1 h2 d2 ft fd where
    cv: "set_block (phi_com_vcom phi) n (n + nrows (state_trajectory spl)) 0 (ncols (phi_com_vcom phi)) (col_slice 0 6 (state_trajectory spl)) = Inr cv"
    and va: "set_block (phi_vcom_acom phi) n (n + nrows (state_trajectory spl)) 0 (ncols (phi_vcom_acom phi)) (col_slice 0 6 (dot_state_trajectory spl)) = Inr va"
    and h1: "set_block (phi_hg phi) n (n + nrows (state_trajectory spl)) 3 (ncols (phi_hg phi)) (last_cols 3 (state_trajectory spl)) = Inr h1"
    and d1: "set_block (phi_dhg phi) n (n + nrows (state_trajectory spl)) 3 (ncols (phi_dhg phi)) (last_cols 3 (dot_state_trajectory spl)) = Inr d1"
    and h2: "set_block h1 n (n + nrows (state_trajectory spl)) 0 3 (scale mass (col_slice 3 6 (state_trajectory spl))) = Inr h2"
    and d2: "set_block d1 n (n + nrows (state_trajectory spl)) 0 3 (scale mass (col_slice 3 6 (dot_state_trajectory spl))) = Inr d2"
    and fd: "fill_patches (fst ft) (snd ft) (take (nrows (state_trajectory spl)) (drop n t)) n (nrows (state_trajectory spl)) ps (phi_f phi, phi_df phi) = Inr fd"
    and r: "r = (\<lparr>phi_f = fst fd, phi_df = snd fd, phi_com_vcom = cv, phi_vcom_acom = va,
             phi_hg = h2, phi_dhg = d2\<rparr>, n + nrows (state_trajectory spl))"
    by (auto simp: fill_segment_def Let_def bindE_eq_Inr)
  show ?thesis
    using assms(2) set_block_shape[OF cv] set_block_shape[OF va] set_block_shape[OF h1]
      set_block_shape[OF d1] set_block_shape[OF h2] set_block_shape[OF d2]
      fill_patches_shape[OF fd, of N S]
    by (simp add: r phic_shape_def)
qed

lemma fill_intervals_shape:
  "fill_intervals fit mass ps t spls n phi = Inr phi' \<Longrightarrow> phic_shape N S phi \<Longrightarrow> phic_shape N S phi'"
proof (induction spls arbitrary: n phi)
  case Nil
  then show ?case by simp
next
  case (Cons spl spls)
  from Cons.prems(1) obtain r where
    r: "fill_segment fit mass ps t n phi spl = Inr r"
    and rest: "fill_intervals fit mass ps t spls (snd r) (fst r) = Inr phi'"
    by (auto simp: bindE_eq_Inr)
  show ?case
    using Cons.IH[OF rest] fill_segment_shape[OF r Cons.prems(2)] by simp
qed

lemma PhiC_dict_shape:
  "dict_shape N S d \<Longrightarrow> dict_shape N (S \<union> set ps) (PhiC_dict ps N d)"
proof (induction ps arbitrary: d S)
  case Nil
  then show ?case by simp
next
  case (Cons p ps)
  have "dict_shape N (insert p S) (od_update p (zeros N 6) d)"
    using Cons.prems by (auto simp: dict_shape_def od_get_od_update zeros_def nrows_def)
  from Cons.IH[OF this] show ?case by simp
qed

lemma PhiC_shape: "phic_shape N (set ps) (PhiC ps N)"
proof -
  have "dict_shape N {} ([] :: (string \<times> 'a array2) list)"
    by (simp add: dict_shape_def)
  from PhiC_dict_shape[OF this, of ps] show ?thesis
    by (simp add: phic_shape_def PhiC_def zeros_def nrows_def)
qed

lemma phi_samples_shape:
  assumes "phi_samples fit mass ps spls = Inr (t, phi)"
  shows "t = concat (map time_trajectory spls) \<and> phic_shape (length t) (set ps) phi"
  using assms fill_intervals_shape[OF _ PhiC_shape]
  by (auto simp: phi_samples_def Let_def bindE_eq_Inr)

lemma PhiC2_dicts_get:
  "PhiC2_dicts phi ds ps fd = Inr fd' \<Longrightarrow>
   od_get (fst fd') p = (if p \<in> set ps then Inr (removeDuplicates2 (projr (od_get (phi_f phi) p)) ds)
                         else od_get (fst fd) p) \<and>
   od_get (snd fd') p = (if p \<in> set ps then Inr (removeDuplicates2 (projr (od_get (phi_df phi) p)) ds)
                         else od_get (snd fd) p)"
proof (induction ps arbitrary: fd)
  case Nil
  then show ?case by simp
next
  case (Cons q ps)
  from Cons.prems obtain A B where
    A: "od_get (phi_f phi) q = Inr A" and B: "od_get (phi_df phi) q = Inr B"
    and rest: "PhiC2_dicts phi ds ps (od_update q (removeDuplicates2 A ds) (fst fd),
                 od_update q (removeDuplicates2 B ds) (snd fd)) = Inr fd'"
    by (auto simp: bindE_eq_Inr)
  show ?case
    using Cons.IH[OF rest] A B by (auto simp: od_get_od_update)
qed

lemma PhiC2_dicts_ok:
  "\<forall>p\<in>set ps. (\<exists>A. od_get (phi_f phi) p = Inr A) \<and> (\<exists>B. od_get (phi_df phi) p = Inr B) \<Longrightarrow>
   \<exists>fd'. PhiC2_dicts phi ds ps fd = Inr fd'"
  by (induction ps arbitrary: fd) auto

lemma assign_forces_get:
  "assign_forces t phi2 ps pc = (None, pc') \<Longrightarrow>
   com_vcom pc' = com_vcom pc \<and> hg pc' = hg pc \<and>
   od_get (forces pc') p =
     (if p \<in> set ps
      then Inr (CubicHermiteSpline t (projr (od_get (phi_f phi2) p)) (projr (od_get (phi_df phi2) p)))
      else od_get (forces pc) p)"
proof (induction ps arbitrary: pc)
  case Nil
  then show ?case by simp
next
  case (Cons q ps)
  from Cons.prems obtain A B where
    A: "od_get (phi_f phi2) q = Inr A" and B: "od_get (phi_df phi2) q = Inr B"
    and rest: "assign_forces t phi2 ps
          (pc\<lparr>forces := od_update q (CubicHermiteSpline t A B) (forces pc)\<rparr>) = (None, pc')"
    by (auto split: sum.splits)
  show ?case
    using Cons.IH[OF rest] A B by (auto simp: od_get_od_update)
qed

lemma assign_forces_ok:
  "\<forall>p\<in>set ps. (\<exists>A. od_get (phi_f phi2) p = Inr A) \<and> (\<exists>B. od_get (phi_df phi2) p = Inr B) \<Longrightarrow>
   fst (assign_forces t phi2 ps pc) = None"
  by (induction ps arbitrary: pc) auto

subsection \<open>createCentroidalPhi: what a returning run computes\<close>

lemma createCentroidalPhi_returns:
  assumes "createCentroidalPhi E fit self rmodel rdata = (None, self', rdata')"
  shows "\<exists>M mass t phi ds.
     crba E rmodel rdata (neutral E rmodel) = Inr (M, rdata') \<and> mat00 M = Inr mass \<and>
     phi_samples fit mass (od_keys (ee_map self)) (butlast (ms_interval_data (cs self))) = Inr (t, phi) \<and>
     ds = findDuplicates t \<and>
     self' = self\<lparr>phi_c := phi_c self'\<rparr> \<and>
     com_vcom (phi_c self') = Some (CubicHermiteSpline (removeDuplicates t ds)
        (removeDuplicates2 (phi_com_vcom phi) ds) (removeDuplicates2 (phi_vcom_acom phi) ds)) \<and>
     hg (phi_c self') = Some (CubicHermiteSpline (removeDuplicates t ds)
        (removeDuplicates2 (phi_hg phi) ds) (removeDuplicates2 (phi_dhg phi) ds)) \<and>
     (\<forall>p. od_get (forces (phi_c self')) p =
        (if p \<in> set (od_keys (ee_map self))
         then Inr (CubicHermiteSpline (removeDuplicates t ds)
                (removeDuplicates2 (projr (od_get (phi_f phi) p)) ds)
                (removeDuplicates2 (projr (od_get (phi_df phi) p)) ds))
         else od_get (forces (phi_c self)) p))"
proof -
  let ?ps = "od_keys (ee_map self)"
  let ?spls = "butlast (ms_interval_data (cs self))"
  from assms obtain M d1 where crba: "crba E rmodel rdata (neutral E rmodel) = Inr (M, d1)"
    by (cases "crba E rmodel rdata (neutral E rmodel)")
       (auto simp: createCentroidalPhi_def Let_def)
  from assms crba obtain tp where
    tp: "bindE (mat00 M) (\<lambda>mass. centroidal_arrays fit mass ?ps ?spls) = Inr tp"
    by (cases "bindE (mat00 M) (\<lambda>mass. centroidal_arrays fit mass ?ps ?spls)")
       (auto simp: createCentroidalPhi_def Let_def)
  define pc where "pc = (phi_c self)
       \<lparr>com_vcom := Some (CubicHermiteSpline (fst tp) (phi_com_vcom (snd tp)) (phi_vcom_acom (snd tp))),
        hg := Some (CubicHermiteSpline (fst tp) (phi_hg (snd tp)) (phi_dhg (snd tp)))\<rparr>"
  from assms crba tp have res: "assign_forces (fst tp) (snd tp) ?ps pc = (None, phi_c self')"
    and self': "self' = self\<lparr>phi_c := phi_c self'\<rparr>" and d1: "d1 = rdata'"
    by (auto simp: createCentroidalPhi_def Let_def pc_def prod_eq_iff)
  from tp obtain mass s fd where mass: "mat00 M = Inr mass"
    and s: "phi_samples fit mass ?ps ?spls = Inr s"
    and fd: "PhiC2_dicts (snd s) (findDuplicates (fst s)) ?ps ([], []) = Inr fd"
    and tp_eq: "tp = (removeDuplicates (fst s) (findDuplicates (fst s)),
         \<lparr>phi_f = fst fd, phi_df = snd fd,
          phi_com_vcom = removeDuplicates2 (phi_com_vcom (snd s)) (findDuplicates (fst s)),
          phi_vcom_acom = removeDuplicates2 (phi_vcom_acom (snd s)) (findDuplicates (fst s)),
          phi_hg = removeDuplicates2 (phi_hg (snd s)) (findDuplicates (fst s)),
          phi_dhg = removeDuplicates2 (phi_dhg (snd s)) (findDuplicates (fst s))\<rparr>)"
    by (auto simp: bindE_eq_Inr centroidal_arrays_def PhiC2_def Let_def)
  have forces: "od_get (forces (phi_c self')) p =
        (if p \<in> set ?ps
         then Inr (CubicHermiteSpline (removeDuplicates (fst s) (findDuplicates (fst s)))
                (removeDuplicates2 (projr (od_get (phi_f (snd s)) p)) (findDuplicates (fst s)))
                (removeDuplicates2 (projr (od_get (phi_df (snd s)) p)) (findDuplicates (fst s))))
         else od_get (forces (phi_c self)) p)" for p
    using assign_forces_get[OF res, of p] PhiC2_dicts_get[OF fd, of p]
    by (simp add: tp_eq pc_def)
  have cv: "com_vcom (phi_c self') = com_vcom pc" and h: "hg (phi_c self') = hg pc"
    using assign_forces_get[OF res] by simp_all
  show ?thesis
    apply (rule exI[of _ M], rule exI[of _ mass], rule exI[of _ "fst s"], rule exI[of _ "snd s"],
           rule exI[of _ "findDuplicates (fst s)"])
    using crba d1 mass s self' forces cv h
    by (simp add: pc_def tp_eq)
qed

lemma nrows_removeDuplicates2:
  "nrows A = length t \<Longrightarrow> nrows (removeDuplicates2 A ds) = length (removeDuplicates t ds)"
  by (simp add: removeDuplicates2_def nrows_def removeDuplicates_eq)

lemma removeDuplicates2_findDuplicates:
  "nrows A = length t \<Longrightarrow> removeDuplicates2 A (findDuplicates t) = take_rows (first_occurrences t) A"
  by (simp add: removeDuplicates2_def take_rows_def nrows_def removeDuplicates_findDuplicates)

lemma phic_shape_dict:
  "phic_shape N S phi \<Longrightarrow> p \<in> S \<Longrightarrow>
   \<exists>F G. od_get (phi_f phi) p = Inr F \<and> od_get (phi_df phi) p = Inr G \<and> nrows F = N \<and> nrows G = N"
  unfolding phic_shape_def dict_shape_def by blast

text \<open>
  Claim C2. When createCentroidalPhi returns, the arrays handed to the interpolant
  constructor (value and derivative rows of the centre-of-mass and angular-momentum
  interpolants, and force and force-rate rows of every patch of the end-effector map) all
  have as many rows as the deduplicated timeline they are paired with.
\<close>

theorem row_count_consistency:
  assumes "createCentroidalPhi E polyfitND self rmodel rdata = (None, self', rdata')"
  shows "\<exists>t A B H D.
     com_vcom (phi_c self') = Some (CubicHermiteSpline t A B) \<and>
     hg (phi_c self') = Some (CubicHermiteSpline t H D) \<and>
     nrows A = length t \<and> nrows B = length t \<and> nrows H = length t \<and> nrows D = length t \<and>
     (\<forall>patch\<in>set (od_keys (ee_map self)). \<exists>F G.
        od_get (forces (phi_c self')) patch = Inr (CubicHermiteSpline t F G) \<and>
        nrows F = length t \<and> nrows G = length t)"
proof -
  from createCentroidalPhi_returns[OF assms] obtain mass t phi ds where
    s: "phi_samples polyfitND mass (od_keys (ee_map self)) (butlast (ms_interval_data (cs self))) = Inr (t, phi)"
    and cv: "com_vcom (phi_c self') = Some (CubicHermiteSpline (removeDuplicates t ds)
        (removeDuplicates2 (phi_com_vcom phi) ds) (removeDuplicates2 (phi_vcom_acom phi) ds))"
    and h: "hg (phi_c self') = Some (CubicHermiteSpline (removeDuplicates t ds)
        (removeDuplicates2 (phi_hg phi) ds) (removeDuplicates2 (phi_dhg phi) ds))"
    and f: "\<And>p. od_get (forces (phi_c self')) p =
        (if p \<in> set (od_keys (ee_map self))
         then Inr (CubicHermiteSpline (removeDuplicates t ds)
                (removeDuplicates2 (projr (od_get (phi_f phi) p)) ds)
                (removeDuplicates2 (projr (od_get (phi_df phi) p)) ds))
         else od_get (forces (phi_c self)) p)"
    by blast
  from phi_samples_shape[OF s] have shape: "phic_shape (length t) (set (od_keys (ee_map self))) phi"
    by blast
  have arrays: "nrows (phi_com_vcom phi) = length t" "nrows (phi_vcom_acom phi) = length t"
    "nrows (phi_hg phi) = length t" "nrows (phi_dhg phi) = length t"
    using shape by (simp_all add: phic_shape_def)
  have patches: "\<exists>F G. od_get (forces (phi_c self')) patch = Inr (CubicHermiteSpline (removeDuplicates t ds) F G) \<and>
        nrows F = length (removeDuplicates t ds) \<and> nrows G = length (removeDuplicates t ds)"
    if "patch \<in> set (od_keys (ee_map self))" for patch
  proof -
    from phic_shape_dict[OF shape that] obtain F G where
      "od_get (phi_f phi) patch = Inr F" "od_get (phi_df phi) patch = Inr G"
      "nrows F = length t" "nrows G = length t" by blast
    then show ?thesis
      using f[of patch] that by (simp add: nrows_removeDuplicates2)
  qed
  show ?thesis
    apply (rule exI[of _ "removeDuplicates t ds"])
    using cv h arrays patches by (simp add: nrows_removeDuplicates2)
qed

lemma example_run: "fst (createCentroidalPhi example_engine example_fit example_wrapper () []) = None"
  by code_simp

theorem row_count_consistency_witness:
  "fst (createCentroidalPhi example_engine example_fit example_wrapper () []) = None \<and>
   (\<exists>t A B. com_vcom (phi_c (fst (snd (createCentroidalPhi example_engine example_fit example_wrapper () []))))
        = Some (CubicHermiteSpline t A B) \<and> nrows A = length t \<and> nrows B = length t)"
proof -
  have run: "createCentroidalPhi example_engine example_fit example_wrapper () [] =
      (None, fst (snd (createCentroidalPhi example_engine example_fit example_wrapper () [])),
             snd (snd (createCentroidalPhi example_engine example_fit example_wrapper () [])))"
    using example_run by (simp add: prod_eq_iff)
  from row_count_consistency[OF run] example_run show ?thesis by blast
qed


lemma first_occurrences_alt:
  "first_occurrences t = filter (\<lambda>i. \<forall>j<i. t ! j \<noteq> t ! i) [0..<length t]"
  unfolding first_occurrences_def
  by (rule filter_cong) (auto simp: in_set_take_iff)

text \<open>
  Claim C1. Let \<open>t\<close> be the concatenated timeline and \<open>k\<close> the number of its indices whose
  timestamp equals an earlier one. When createCentroidalPhi returns, the timeline and every
  value and derivative array it hands to the interpolants (com_vcom, vcom_acom, hg, dhg,
  and f and df of every patch) consist of the rows at the indices \<open>keep\<close>, the first
  occurrences of each timestamp in increasing order, of which there are \<open>length t - k\<close>:
  the relative order is kept and each retained timestamp carries the row of its first
  occurrence. The witness is the scenario of the claim: segments with time axes
  \<open>[0, 1, 2]\<close> and \<open>[2, 3, 4]\<close> give the timeline \<open>[0, 1, 2, 3, 4]\<close> with five rows, the
  row of \<open>t = 2\<close> being the last sample of the first segment.
\<close>

theorem deduplication_correctness:
  assumes "createCentroidalPhi E polyfitND self rmodel rdata = (None, self', rdata')"
  shows "\<exists>mass t phi keep.
     phi_samples polyfitND mass (od_keys (ee_map self)) (butlast (ms_interval_data (cs self))) = Inr (t, phi) \<and>
     t = concat (map time_trajectory (butlast (ms_interval_data (cs self)))) \<and>
     keep = filter (\<lambda>i. \<forall>j<i. t ! j \<noteq> t ! i) [0..<length t] \<and>
     length keep = length t - card {i. i < length t \<and> (\<exists>j<i. t ! j = t ! i)} \<and>
     com_vcom (phi_c self') = Some (CubicHermiteSpline (map (\<lambda>i. t ! i) keep)
        (take_rows keep (phi_com_vcom phi)) (take_rows keep (phi_vcom_acom phi))) \<and>
     hg (phi_c self') = Some (CubicHermiteSpline (map (\<lambda>i. t ! i) keep)
        (take_rows keep (phi_hg phi)) (take_rows keep (phi_dhg phi))) \<and>
     (\<forall>patch\<in>set (od_keys (ee_map self)). \<exists>F G.
        od_get (phi_f phi) patch = Inr F \<and> od_get (phi_df phi) patch = Inr G \<and>
        od_get (forces (phi_c self')) patch =
          Inr (CubicHermiteSpline (map (\<lambda>i. t ! i) keep) (take_rows keep F) (take_rows keep G)))"
proof -
  from createCentroidalPhi_returns[OF assms] obtain mass t phi where
    s: "phi_samples polyfitND mass (od_keys (ee_map self)) (butlast (ms_interval_data (cs self))) = Inr (t, phi)"
    and cv: "com_vcom (phi_c self') = Some (CubicHermiteSpline (removeDuplicates t (findDuplicates t))
        (removeDuplicates2 (phi_com_vcom phi) (findDuplicates t)) (removeDuplicates2 (phi_vcom_acom phi) (findDuplicates t)))"
    and h: "hg (phi_c self') = Some (CubicHermiteSpline (removeDuplicates t (findDuplicates t))
        (removeDuplicates2 (phi_hg phi) (findDuplicates t)) (removeDuplicates2 (phi_dhg phi) (findDuplicates t)))"
    and f: "\<And>p. od_get (forces (phi_c self')) p =
        (if p \<in> set (od_keys (ee_map self))
         then Inr (CubicHermiteSpline (removeDuplicates t (findDuplicates t))
                (removeDuplicates2 (projr (od_get (phi_f phi) p)) (findDuplicates t))
                (removeDuplicates2 (projr (od_get (phi_df phi) p)) (findDuplicates t)))
         else od_get (forces (phi_c self)) p)"
    by blast
  let ?keep = "first_occurrences t"
  from phi_samples_shape[OF s] have t: "t = concat (map time_trajectory (butlast (ms_interval_data (cs self))))"
    and shape: "phic_shape (length t) (set (od_keys (ee_map self))) phi"
    by blast+
  have arrays: "nrows (phi_com_vcom phi) = length t" "nrows (phi_vcom_acom phi) = length t"
    "nrows (phi_hg phi) = length t" "nrows (phi_dhg phi) = length t"
    using shape by (simp_all add: phic_shape_def)
  have tl: "removeDuplicates t (findDuplicates t) = map (\<lambda>i. t ! i) ?keep"
    by (simp add: removeDuplicates_findDuplicates)
  have len: "length ?keep = length t - card {i. i < length t \<and> (\<exists>j<i. t ! j = t ! i)}"
    by (simp add: length_first_occurrences length_findDuplicates)
  have patches: "\<exists>F G. od_get (phi_f phi) patch = Inr F \<and> od_get (phi_df phi) patch = Inr G \<and>
        od_get (forces (phi_c self')) patch =
          Inr (CubicHermiteSpline (map (\<lambda>i. t ! i) ?keep) (take_rows ?keep F) (take_rows ?keep G))"
    if "patch \<in> set (od_keys (ee_map self))" for patch
  proof -
    from phic_shape_dict[OF shape that] obtain F G where
      "od_get (phi_f phi) patch = Inr F" "od_get (phi_df phi) patch = Inr G"
      "nrows F = length t" "nrows G = length t" by blast
    then show ?thesis
      using f[of patch] that by (simp add: removeDuplicates2_findDuplicates tl)
  qed
  have alt: "?keep = filter (\<lambda>i. \<forall>j<i. t ! j \<noteq> t ! i) [0..<length t]"
    by (rule first_occurrences_alt)
  have cv': "com_vcom (phi_c self') = Some (CubicHermiteSpline (map (\<lambda>i. t ! i) ?keep)
        (take_rows ?keep (phi_com_vcom phi)) (take_rows ?keep (phi_vcom_acom phi)))"
    using cv arrays by (simp add: removeDuplicates2_findDuplicates tl)
  have h': "hg (phi_c self') = Some (CubicHermiteSpline (map (\<lambda>i. t ! i) ?keep)
        (take_rows ?keep (phi_hg phi)) (take_rows ?keep (phi_dhg phi)))"
    using h arrays by (simp add: removeDuplicates2_findDuplicates tl)
  have pb: "\<forall>patch\<in>set (od_keys (ee_map self)). \<exists>F G.
        od_get (phi_f phi) patch = Inr F \<and> od_get (phi_df phi) patch = Inr G \<and>
        od_get (forces (phi_c self')) patch =
          Inr (CubicHermiteSpline (map (\<lambda>i. t ! i) ?keep) (take_rows ?keep F) (take_rows ?keep G))"
    using patches by blast
  show ?thesis
    by (rule exI[of _ mass], rule exI[of _ t], rule exI[of _ phi], rule exI[of _ ?keep])
       (intro conjI s t alt len cv' h' pb)
qed

lemma sorted_first_occurrences:
  fixes t :: "('a::linorder) list"
  assumes "sorted t"
  shows "sorted_wrt (<) (map (\<lambda>i. t ! i) (first_occurrences t))"
proof -
  let ?P = "\<lambda>i. t ! i \<notin> set (take i t)"
  have "sorted_wrt (<) (filter ?P [0..<length t])"
    by (rule sorted_wrt_filter) simp
  then have "sorted_wrt (\<lambda>i j. t ! i < t ! j) (filter ?P [0..<length t])"
  proof (rule sorted_wrt_mono_rel[rotated])
    fix i j
    assume i: "i \<in> set (filter ?P [0..<length t])" and j: "j \<in> set (filter ?P [0..<length t])"
      and ij: "i < j"
    from j have jl: "j < length t" and jn: "t ! j \<notin> set (take j t)" by simp_all
    from ij jl assms have "t ! i \<le> t ! j"
      by (simp add: sorted_iff_nth_mono)
    moreover from jn ij jl have "t ! i \<noteq> t ! j"
      by (auto simp: in_set_take_iff)
    ultimately show "t ! i < t ! j" by simp
  qed
  then show ?thesis
    by (simp add: first_occurrences_def sorted_wrt_map)
qed

text \<open>
  Claim C3. When the concatenated timeline is non-decreasing (so that every repetition
  is an exact duplicate of a timestamp already seen) and createCentroidalPhi returns, the
  timeline of every interpolant it builds is strictly increasing.
\<close>

theorem timeline_strictly_increasing:
  fixes self :: "('a::{linorder,zero,times}) wrapper"
  assumes "createCentroidalPhi E polyfitND self rmodel rdata = (None, self', rdata')"
    and "sorted (concat (map time_trajectory (butlast (ms_interval_data (cs self)))))"
  shows "\<exists>t A B H D.
     com_vcom (phi_c self') = Some (CubicHermiteSpline t A B) \<and>
     hg (phi_c self') = Some (CubicHermiteSpline t H D) \<and>
     (\<forall>patch\<in>set (od_keys (ee_map self)). \<exists>F G.
        od_get (forces (phi_c self')) patch = Inr (CubicHermiteSpline t F G)) \<and>
     sorted_wrt (<) t"
proof -
  from createCentroidalPhi_returns[OF assms(1)] obtain mass t phi where
    s: "phi_samples polyfitND mass (od_keys (ee_map self)) (butlast (ms_interval_data (cs self))) = Inr (t, phi)"
    and cv: "com_vcom (phi_c self') = Some (CubicHermiteSpline (removeDuplicates t (findDuplicates t))
        (removeDuplicates2 (phi_com_vcom phi) (findDuplicates t)) (removeDuplicates2 (phi_vcom_acom phi) (findDuplicates t)))"
    and h: "hg (phi_c self') = Some (CubicHermiteSpline (removeDuplicates t (findDuplicates t))
        (removeDuplicates2 (phi_hg phi) (findDuplicates t)) (removeDuplicates2 (phi_dhg phi) (findDuplicates t)))"
    and f: "\<And>p. od_get (forces (phi_c self')) p =
        (if p \<in> set (od_keys (ee_map self))
         then Inr (CubicHermiteSpline (removeDuplicates t (findDuplicates t))
                (removeDuplicates2 (projr (od_get (phi_f phi) p)) (findDuplicates t))
                (removeDuplicates2 (projr (od_get (phi_df phi) p)) (findDuplicates t)))
         else od_get (forces (phi_c self)) p)"
    by blast
  from phi_samples_shape[OF s] assms(2) have "sorted t" by blast
  then have "sorted_wrt (<) (removeDuplicates t (findDuplicates t))"
    by (simp add: removeDuplicates_findDuplicates sorted_first_occurrences)
  with cv h f show ?thesis by auto
qed

lemma example_result:
  "createCentroidalPhi example_engine example_fit example_wrapper () [] =
      (None, fst (snd (createCentroidalPhi example_engine example_fit example_wrapper () [])),
             snd (snd (createCentroidalPhi example_engine example_fit example_wrapper () [])))"
  using example_run by (simp add: prod_eq_iff)

lemma example_com_vcom:
  "com_vcom (phi_c (fst (snd (createCentroidalPhi example_engine example_fit example_wrapper () [])))) =
     Some (CubicHermiteSpline [0, 1, 2, 3, 4]
       \<lparr>ncols = 6, rows = [[100, 101, 102, 103, 104, 105], [110, 111, 112, 113, 114, 115],
                           [120, 121, 122, 123, 124, 125], [230, 231, 232, 233, 234, 235],
                           [240, 241, 242, 243, 244, 245]]\<rparr>
       \<lparr>ncols = 6, rows = [[101, 102, 103, 104, 105, 106], [111, 112, 113, 114, 115, 116],
                           [121, 122, 123, 124, 125, 126], [231, 232, 233, 234, 235, 236],
                           [241, 242, 243, 244, 245, 246]]\<rparr>)"
  by code_simp

theorem deduplication_correctness_witness:
  "createCentroidalPhi example_engine example_fit example_wrapper () [] =
      (None, fst (snd (createCentroidalPhi example_engine example_fit example_wrapper () [])),
             snd (snd (createCentroidalPhi example_engine example_fit example_wrapper () []))) \<and>
   concat (map time_trajectory (butlast (ms_interval_data (cs example_wrapper)))) = [0, 1, 2, 2, 3, 4] \<and>
   card {i. i < length [0, 1, 2, 2, 3, 4 :: rat] \<and> (\<exists>j<i. [0, 1, 2, 2, 3, 4 :: rat] ! j = [0, 1, 2, 2, 3, 4] ! i)} = 1 \<and>
   (\<exists>V D.
      com_vcom (phi_c (fst (snd (createCentroidalPhi example_engine example_fit example_wrapper () []))))
        = Some (CubicHermiteSpline [0, 1, 2, 3, 4] V D) \<and> nrows V = 5 \<and> nrows D = 5 \<and>
      rows V ! 2 = take 6 (rows (state_trajectory (example_segment [0, 1, 2] 100 6)) ! 2) \<and>
      rows D ! 2 = take 6 (rows (dot_state_trajectory (example_segment [0, 1, 2] 100 6)) ! 2))"
proof -
  from deduplication_correctness[OF example_result] obtain mass :: rat and t and phi :: "rat phic" and keep where
    t: "t = concat (map time_trajectory (butlast (ms_interval_data (cs example_wrapper))))"
    and len: "length keep = length t - card {i. i < length t \<and> (\<exists>j<i. t ! j = t ! i)}"
    and cv: "com_vcom (phi_c (fst (snd (createCentroidalPhi example_engine example_fit example_wrapper () []))))
        = Some (CubicHermiteSpline (map (\<lambda>i. t ! i) keep)
            (take_rows keep (phi_com_vcom phi)) (take_rows keep (phi_vcom_acom phi)))"
    by blast
  have t': "concat (map time_trajectory (butlast (ms_interval_data (cs example_wrapper)))) = [0, 1, 2, 2, 3, 4]"
    by code_simp
  define c where "c = card {i. i < length t \<and> (\<exists>j<i. t ! j = t ! i)}"
  have "Some (CubicHermiteSpline (map (\<lambda>i. t ! i) keep)
            (take_rows keep (phi_com_vcom phi)) (take_rows keep (phi_vcom_acom phi))) =
      Some (CubicHermiteSpline [0, 1, 2, 3, 4]
       \<lparr>ncols = 6, rows = [[100, 101, 102, 103, 104, 105], [110, 111, 112, 113, 114, 115],
                           [120, 121, 122, 123, 124, 125], [230, 231, 232, 233, 234, 235],
                           [240, 241, 242, 243, 244, 245]]\<rparr>
       \<lparr>ncols = 6, rows = [[101, 102, 103, 104, 105, 106], [111, 112, 113, 114, 115, 116],
                           [121, 122, 123, 124, 125, 126], [231, 232, 233, 234, 235, 236],
                           [241, 242, 243, 244, 245, 246]]\<rparr>)"
    using cv example_com_vcom by (rule trans[OF sym])
  then have "map (\<lambda>i. t ! i) keep = [0, 1, 2, 3, 4 :: rat]"
    by (simp only: option.inject spline.inject)
  then have "length (map (\<lambda>i. t ! i) keep) = length [0, 1, 2, 3, 4 :: rat]"
    by (rule arg_cong)
  then have lk: "length keep = 5"
    by simp
  have tt: "t = [0, 1, 2, 2, 3, 4]"
    unfolding t t' by (rule refl)
  have lt: "length t = 6"
    unfolding tt by simp
  from len have "length keep = length t - c"
    unfolding c_def .
  with lk lt have "c = 1"
    by arith
  then have k: "card {i. i < length [0, 1, 2, 2, 3, 4 :: rat] \<and> (\<exists>j<i. [0, 1, 2, 2, 3, 4 :: rat] ! j = [0, 1, 2, 2, 3, 4] ! i)} = 1"
    unfolding c_def tt .
  have r1: "rows \<lparr>ncols = 6, rows = [[100, 101, 102, 103, 104, 105], [110, 111, 112, 113, 114, 115],
                           [120, 121, 122, 123, 124, 125], [230, 231, 232, 233, 234, 235],
                           [240, 241, 242, 243, 244, 245 :: rat]]\<rparr> ! 2
       = take 6 (rows (state_trajectory (example_segment [0, 1, 2] 100 6)) ! 2)"
    by code_simp
  have r2: "rows \<lparr>ncols = 6, rows = [[101, 102, 103, 104, 105, 106], [111, 112, 113, 114, 115, 116],
                           [121, 122, 123, 124, 125, 126], [231, 232, 233, 234, 235, 236],
                           [241, 242, 243, 244, 245, 246 :: rat]]\<rparr> ! 2
       = take 6 (rows (dot_state_trajectory (example_segment [0, 1, 2] 100 6)) ! 2)"
    by code_simp
  show ?thesis
    apply (intro conjI)
       apply (rule example_result)
      apply (rule t')
     apply (rule k)
    apply (rule exI, rule exI, intro conjI)
        apply (rule example_com_vcom)
       apply (simp add: nrows_def)
      apply (simp add: nrows_def)
     apply (rule r1)
    apply (rule r2)
    done
qed

theorem timeline_strictly_increasing_witness:
  "createCentroidalPhi example_engine example_fit example_wrapper () [] =
      (None, fst (snd (createCentroidalPhi example_engine example_fit example_wrapper () [])),
             snd (snd (createCentroidalPhi example_engine example_fit example_wrapper () []))) \<and>
   sorted (concat (map time_trajectory (butlast (ms_interval_data (cs example_wrapper))))) \<and>
   (\<exists>t A B.
      com_vcom (phi_c (fst (snd (createCentroidalPhi example_engine example_fit example_wrapper () []))))
        = Some (CubicHermiteSpline t A B) \<and> sorted_wrt (<) t)"
proof -
  have s: "sorted (concat (map time_trajectory (butlast (ms_interval_data (cs example_wrapper)))))"
    by code_simp
  from timeline_strictly_increasing[OF example_result s] example_result s show ?thesis
    by blast
qed

subsection \<open>createEESplines\<close>

lemma ee_outer_no_samples:
  "ee_outer E rmodel em xs absc 0 ps sd = (None, sd)"
  by (induction ps arbitrary: sd) simp_all

text \<open>
  Claim C10. For an empty state trajectory createEESplines does not raise: the timestamp
  axis is empty, the robot data comes back as passed in whatever the engine is (even one
  whose every operation raises, so no operation of it was invoked), and the end-effector
  spline container is the fresh, empty one.
\<close>

theorem createEESplines_empty_trajectory:
  "linspace 0 (t_sampling * (of_nat (length ([] :: 'a list list)) - 1)) (length ([] :: 'a list list)) = ([] :: ('a::field) list) \<and>
   createEESplines E self rmodel rdata ([] :: 'a list list) t_sampling = (None, self\<lparr>ee_splines := Some []\<rparr>, rdata)"
  by (simp add: createEESplines_def linspace_def ee_outer_no_samples)

lemma od_update_twice: "od_update k v (od_update k w d) = od_update k v d"
  by (induction d) auto

lemma ee_inner_state:
  "fst (ee_inner E rmodel em xs patch absc is (st, d)) = fst (ee_inner_once E rmodel em xs patch is st) \<and>
   fst (snd (ee_inner E rmodel em xs patch absc is (st, d))) = snd (ee_inner_once E rmodel em xs patch is st)"
proof (induction "is" arbitrary: st d)
  case Nil
  show ?case by simp
next
  case (Cons i "is")
  obtain r st' where step: "ee_sample E rmodel em xs patch i st = (r, st')"
    by (metis surj_pair)
  show ?case
    using Cons.IH step by (cases r) simp_all
qed

lemma ee_inner_dict:
  "fst (ee_inner E rmodel em xs patch absc is (st, d)) = None \<Longrightarrow> is \<noteq> [] \<Longrightarrow>
   snd (snd (ee_inner E rmodel em xs patch absc is (st, d))) =
     od_update patch (CubicHermiteSpline absc (fst (snd (ee_inner_once E rmodel em xs patch is st)))
                        (fst (snd (snd (ee_inner_once E rmodel em xs patch is st))))) d"
proof (induction "is" arbitrary: st d)
  case Nil
  then show ?case by simp
next
  case (Cons i "is")
  obtain r st' where step: "ee_sample E rmodel em xs patch i st = (r, st')"
    by (metis surj_pair)
  with Cons.prems(1) have r: "r = None" by (cases r) simp_all
  show ?case
  proof (cases "is = []")
    case True
    with step r show ?thesis by simp
  next
    case False
    from Cons.prems(1) step r have
      "fst (ee_inner E rmodel em xs patch absc is
             (st', od_update patch (CubicHermiteSpline absc (fst st') (fst (snd st'))) d)) = None"
      by simp
    from Cons.IH[OF this False] step r show ?thesis
      by (simp add: od_update_twice)
  qed
qed

lemma ee_outer_once_equiv:
  assumes "0 < N"
  shows "fst (ee_outer E rmodel em xs absc N ps sd) = fst (ee_outer_once E rmodel em xs absc N ps sd) \<and>
     snd (snd (ee_outer E rmodel em xs absc N ps sd)) = snd (snd (ee_outer_once E rmodel em xs absc N ps sd)) \<and>
     (fst (ee_outer E rmodel em xs absc N ps sd) = None \<longrightarrow>
        ee_outer E rmodel em xs absc N ps sd = ee_outer_once E rmodel em xs absc N ps sd)"
proof (induction ps arbitrary: sd)
  case Nil
  show ?case by simp
next
  case (Cons patch ps)
  let ?st0 = "(zeros 3 N, zeros 3 N, snd sd)"
  from assms have ne: "[0..<N] \<noteq> []" by simp
  obtain ra sta da where A: "ee_inner E rmodel em xs patch absc [0..<N] (?st0, fst sd) = (ra, sta, da)"
    by (metis prod_cases3)
  obtain rb stb where B: "ee_inner_once E rmodel em xs patch [0..<N] ?st0 = (rb, stb)"
    by (metis surj_pair)
  have st: "ra = rb" "sta = stb"
    using ee_inner_state[of E rmodel em xs patch absc "[0..<N]" ?st0 "fst sd"] A B by simp_all
  show ?case
  proof (cases rb)
    case None
    with st A have a: "fst (ee_inner E rmodel em xs patch absc [0..<N] (?st0, fst sd)) = None"
      by simp
    from ee_inner_dict[OF a ne] have
      "snd (snd (ee_inner E rmodel em xs patch absc [0..<N] (?st0, fst sd))) =
       od_update patch (CubicHermiteSpline absc (fst (snd (ee_inner_once E rmodel em xs patch [0..<N] ?st0)))
                        (fst (snd (snd (ee_inner_once E rmodel em xs patch [0..<N] ?st0))))) (fst sd)" .
    then have d: "da = od_update patch (CubicHermiteSpline absc (fst stb) (fst (snd stb))) (fst sd)"
      unfolding A B by simp
    have L: "ee_outer E rmodel em xs absc N (patch # ps) sd =
             ee_outer E rmodel em xs absc N ps (da, snd (snd stb))"
      unfolding ee_outer.simps A using None st by simp
    have R: "ee_outer_once E rmodel em xs absc N (patch # ps) sd =
             ee_outer_once E rmodel em xs absc N ps (da, snd (snd stb))"
      unfolding ee_outer_once.simps B d using None by simp
    show ?thesis
      unfolding L R by (rule Cons.IH)
  next
    case (Some e)
    have L: "ee_outer E rmodel em xs absc N (patch # ps) sd = (Some e, da, snd (snd stb))"
      unfolding ee_outer.simps A using Some st by simp
    have R: "ee_outer_once E rmodel em xs absc N (patch # ps) sd = (Some e, fst sd, snd (snd stb))"
      unfolding ee_outer_once.simps B using Some by simp
    show ?thesis
      unfolding L R by simp
  qed
qed

text \<open>
  Claim C9, amended to a non-empty state trajectory. createEESplines and the variant that
  builds each spline once, after the sampling loop of its patch, raise the same error or
  none and leave the same robot data; when no error is raised they return the same
  wrapper, so the spline stored for each patch is the one built from the fully populated
  position and velocity arrays.
\<close>

theorem createEESplines_once_equivalent:
  assumes "xs \<noteq> []"
  shows "fst (createEESplines E self rmodel rdata xs t_sampling) =
           fst (createEESplines_once E self rmodel rdata xs t_sampling) \<and>
         snd (snd (createEESplines E self rmodel rdata xs t_sampling)) =
           snd (snd (createEESplines_once E self rmodel rdata xs t_sampling)) \<and>
         (fst (createEESplines E self rmodel rdata xs t_sampling) = None \<longrightarrow>
            createEESplines E self rmodel rdata xs t_sampling =
            createEESplines_once E self rmodel rdata xs t_sampling)"
proof -
  from assms have N: "0 < length xs" by simp
  define absc where "absc = a2m (linspace 0 (t_sampling * (of_nat (length xs) - 1)) (length xs))"
  define ra where "ra = ee_outer E rmodel (ee_map self) xs absc (length xs) (od_keys (ee_map self)) ([], rdata)"
  define rb where "rb = ee_outer_once E rmodel (ee_map self) xs absc (length xs) (od_keys (ee_map self)) ([], rdata)"
  have eq: "fst ra = fst rb \<and> snd (snd ra) = snd (snd rb) \<and> (fst ra = None \<longrightarrow> ra = rb)"
    unfolding ra_def rb_def by (rule ee_outer_once_equiv[OF N])
  have A: "createEESplines E self rmodel rdata xs t_sampling =
           (fst ra, self\<lparr>ee_splines := Some (fst (snd ra))\<rparr>, snd (snd ra))"
    unfolding createEESplines_def Let_def ra_def absc_def by (rule refl)
  have B: "createEESplines_once E self rmodel rdata xs t_sampling =
           (fst rb, self\<lparr>ee_splines := Some (fst (snd rb))\<rparr>, snd (snd rb))"
    unfolding createEESplines_once_def Let_def rb_def absc_def by (rule refl)
  from eq have e1: "fst ra = fst rb" and e2: "snd (snd ra) = snd (snd rb)"
    by blast+
  have e3: "ra = rb" if "fst ra = None"
    using eq that by blast
  show ?thesis
    unfolding A B
  proof (intro conjI impI)
    show "fst (fst ra, self\<lparr>ee_splines := Some (fst (snd ra))\<rparr>, snd (snd ra)) =
          fst (fst rb, self\<lparr>ee_splines := Some (fst (snd rb))\<rparr>, snd (snd rb))"
      by (simp only: fst_conv e1)
    show "snd (snd (fst ra, self\<lparr>ee_splines := Some (fst (snd ra))\<rparr>, snd (snd ra))) =
          snd (snd (fst rb, self\<lparr>ee_splines := Some (fst (snd rb))\<rparr>, snd (snd rb)))"
      by (simp only: snd_conv e2)
    assume "fst (fst ra, self\<lparr>ee_splines := Some (fst (snd ra))\<rparr>, snd (snd ra)) = None"
    then have "fst ra = None"
      by (simp only: fst_conv)
    then have "ra = rb"
      by (rule e3)
    then show "(fst ra, self\<lparr>ee_splines := Some (fst (snd ra))\<rparr>, snd (snd ra)) =
               (fst rb, self\<lparr>ee_splines := Some (fst (snd rb))\<rparr>, snd (snd rb))"
      by (simp only:)
  qed
qed


lemma example_ee_run:
  "createEESplines example_engine example_wrapper () [] [[1, 2], [3, 4], [5, 6]] (1 / 2) =
   (None,
    example_wrapper\<lparr>ee_splines := Some [(''RF_patch'',
       CubicHermiteSpline [0, 1 / 2, 1]
         \<lparr>ncols = 3, rows = [[1, 3, 5], [0, 0, 0], [0, 0, 0]]\<rparr>
         \<lparr>ncols = 3, rows = [[2, 4, 6], [0, 0, 0], [0, 0, 0]]\<rparr>)]\<rparr>,
    [5, 6])"
  by code_simp

theorem createEESplines_once_equivalent_witness:
  "[[1, 2], [3, 4], [5, 6 :: rat]] \<noteq> [] \<and>
   fst (createEESplines example_engine example_wrapper () [] [[1, 2], [3, 4], [5, 6]] (1 / 2)) = None \<and>
   createEESplines example_engine example_wrapper () [] [[1, 2], [3, 4], [5, 6]] (1 / 2) =
   createEESplines_once example_engine example_wrapper () [] [[1, 2], [3, 4], [5, 6]] (1 / 2)"
proof -
  have ne: "[[1, 2], [3, 4], [5, 6 :: rat]] \<noteq> []" by simp
  have run: "fst (createEESplines example_engine example_wrapper () [] [[1, 2], [3, 4], [5, 6]] (1 / 2)) = None"
    by (simp only: example_ee_run fst_conv)
  from createEESplines_once_equivalent[OF ne, of example_engine example_wrapper "()" "[]" "1 / 2"] run ne
  show ?thesis by blast
qed

text \<open>
  The claim C9 as stated fails for an empty state trajectory: the original stores no
  spline at all, the variant stores one (over empty arrays) for every patch.
\<close>

theorem createEESplines_once_differs_on_empty:
  "ee_splines (fst (snd (createEESplines example_engine example_wrapper () [] [] 1))) = Some [] \<and>
   ee_splines (fst (snd (createEESplines_once example_engine example_wrapper () [] [] 1))) =
     Some [(''RF_patch'', CubicHermiteSpline [] (zeros 3 0) (zeros 3 0))] \<and>
   createEESplines example_engine example_wrapper () [] [] 1 \<noteq>
   createEESplines_once example_engine example_wrapper () [] [] 1"
proof -
  have a: "ee_splines (fst (snd (createEESplines example_engine example_wrapper () [] [] 1))) = Some []"
    by (simp add: createEESplines_def ee_outer_no_samples)
  have b: "ee_splines (fst (snd (createEESplines_once example_engine example_wrapper () [] [] 1))) =
     Some [(''RF_patch'', CubicHermiteSpline [] (zeros 3 0) (zeros 3 0))]"
    by (simp add: createEESplines_once_def example_wrapper_def od_keys_def linspace_def)
  from a b have "createEESplines example_engine example_wrapper () [] [] 1 \<noteq>
   createEESplines_once example_engine example_wrapper () [] [] 1"
    by auto
  with a b show ?thesis by blast
qed

subsection \<open>What the methods leave alone\<close>

lemma ee_sample_data:
  assumes "engine_keeps_data E"
  shows "snd (snd (snd (ee_sample E rmodel em xs patch i st))) = snd (snd st)"
proof -
  from assms have fk: "\<And>m d q v d'. forwardKinematics E m d q v = Inr d' \<Longrightarrow> d' = d"
    and up: "\<And>m d i r. updateFramePlacement E m d i = Inr r \<Longrightarrow> snd r = d"
    unfolding engine_keeps_data_def by blast+
  show ?thesis
    unfolding ee_sample_def Let_def
    by (auto split: sum.splits dest!: fk up)
qed

lemma ee_inner_once_data:
  assumes "engine_keeps_data E"
  shows "snd (snd (snd (ee_inner_once E rmodel em xs patch is st))) = snd (snd st)"
proof (induction "is" arbitrary: st)
  case Nil
  show ?case by simp
next
  case (Cons i "is")
  obtain r st' where step: "ee_sample E rmodel em xs patch i st = (r, st')"
    by (metis surj_pair)
  from ee_sample_data[OF assms, of rmodel em xs patch i st] step
  have "snd (snd st') = snd (snd st)" by simp
  with Cons.IH[of st'] step show ?case
    by (cases r) simp_all
qed

lemma ee_outer_data:
  assumes "engine_keeps_data E"
  shows "snd (snd (ee_outer E rmodel em xs absc N ps sd)) = snd sd"
proof (induction ps arbitrary: sd)
  case Nil
  show ?case by simp
next
  case (Cons patch ps)
  let ?st0 = "(zeros 3 N, zeros 3 N, snd sd)"
  obtain ra sta da where A: "ee_inner E rmodel em xs patch absc [0..<N] (?st0, fst sd) = (ra, sta, da)"
    by (metis prod_cases3)
  have "sta = snd (ee_inner_once E rmodel em xs patch [0..<N] ?st0)"
    using ee_inner_state[of E rmodel em xs patch absc "[0..<N]" ?st0 "fst sd"] A by simp
  with ee_inner_once_data[OF assms, of rmodel em xs patch "[0..<N]" ?st0]
  have d: "snd (snd sta) = snd sd" by simp
  show ?case
  proof (cases ra)
    case None
    have "ee_outer E rmodel em xs absc N (patch # ps) sd =
          ee_outer E rmodel em xs absc N ps (da, snd (snd sta))"
      unfolding ee_outer.simps A using None by simp
    with Cons.IH[of "(da, snd (snd sta))"] d show ?thesis by simp
  next
    case (Some e)
    have "ee_outer E rmodel em xs absc N (patch # ps) sd = (Some e, da, snd (snd sta))"
      unfolding ee_outer.simps A using Some by simp
    with d show ?thesis by simp
  qed
qed

lemma createEESplines_frame:
  "fst (snd (createEESplines E self rmodel rdata xs t_sampling)) =
     self\<lparr>ee_splines := ee_splines (fst (snd (createEESplines E self rmodel rdata xs t_sampling)))\<rparr>"
  by (simp add: createEESplines_def Let_def)

lemma createCentroidalPhi_frame:
  "fst (snd (createCentroidalPhi E fit self rmodel rdata)) =
     self\<lparr>phi_c := phi_c (fst (snd (createCentroidalPhi E fit self rmodel rdata)))\<rparr>"
  by (simp add: createCentroidalPhi_def Let_def split: sum.splits)

lemma createCentroidalPhi_data:
  assumes "engine_keeps_data E"
  shows "snd (snd (createCentroidalPhi E fit self rmodel rdata)) = rdata"
proof -
  from assms have c: "\<And>m d q r. crba E m d q = Inr r \<Longrightarrow> snd r = d"
    unfolding engine_keeps_data_def by blast
  show ?thesis
    by (auto simp: createCentroidalPhi_def Let_def split: sum.splits dest!: c)
qed

text \<open>
  Claim C6, amended. Of the wrapper, createEESplines changes nothing but the end-effector
  spline container and createCentroidalPhi nothing but the centroidal container: the
  contact sequence, the end-effector map and every other field come back as they were (the
  state trajectory and the robot model are values the methods only read). The robot data
  is handed to the engine's crba, forwardKinematics and updateFramePlacement and comes back
  as those calls leave it; it is unchanged whenever they leave it unchanged. Input and
  output are outside this model.
\<close>

theorem methods_frame:
  fixes E :: "('m, 'd, 'a::field) engine"
  shows "fst (snd (createEESplines E self rmodel rdata xs t_sampling)) =
       self\<lparr>ee_splines := ee_splines (fst (snd (createEESplines E self rmodel rdata xs t_sampling)))\<rparr> \<and>
     fst (snd (createCentroidalPhi E polyfitND self rmodel rdata)) =
       self\<lparr>phi_c := phi_c (fst (snd (createCentroidalPhi E polyfitND self rmodel rdata)))\<rparr> \<and>
     (engine_keeps_data E \<longrightarrow>
        snd (snd (createEESplines E self rmodel rdata xs t_sampling)) = rdata \<and>
        snd (snd (createCentroidalPhi E polyfitND self rmodel rdata)) = rdata)"
proof (intro conjI impI)
  show "fst (snd (createEESplines E self rmodel rdata xs t_sampling)) =
       self\<lparr>ee_splines := ee_splines (fst (snd (createEESplines E self rmodel rdata xs t_sampling)))\<rparr>"
    by (rule createEESplines_frame)
  show "fst (snd (createCentroidalPhi E polyfitND self rmodel rdata)) =
       self\<lparr>phi_c := phi_c (fst (snd (createCentroidalPhi E polyfitND self rmodel rdata)))\<rparr>"
    by (rule createCentroidalPhi_frame)
next
  assume k: "engine_keeps_data E"
  show "snd (snd (createEESplines E self rmodel rdata xs t_sampling)) = rdata"
    using ee_outer_data[OF k, of rmodel "ee_map self" xs _ "length xs" "od_keys (ee_map self)" "([], rdata)"]
    by (simp add: createEESplines_def Let_def)
  show "snd (snd (createCentroidalPhi E polyfitND self rmodel rdata)) = rdata"
    by (rule createCentroidalPhi_data[OF k])
qed

lemma reading_engine_keeps: "engine_keeps_data reading_engine"
  by (simp add: engine_keeps_data_def reading_engine_def)

theorem methods_frame_witness:
  "engine_keeps_data reading_engine \<and>
   snd (snd (createEESplines reading_engine example_wrapper () [7] [[1, 2], [3, 4], [5, 6]] (1 / 2))) = [7] \<and>
   snd (snd (createCentroidalPhi reading_engine example_fit example_wrapper () [7])) = [7] \<and>
   fst (createEESplines reading_engine example_wrapper () [7] [[1, 2], [3, 4], [5, 6]] (1 / 2)) = None \<and>
   fst (createCentroidalPhi reading_engine example_fit example_wrapper () [7]) = None"
proof -
  have a: "fst (createEESplines reading_engine example_wrapper () [7] [[1, 2], [3, 4], [5, 6]] (1 / 2)) = None"
    by code_simp
  have b: "fst (createCentroidalPhi reading_engine example_fit example_wrapper () [7]) = None"
    by code_simp
  from methods_frame[of reading_engine example_wrapper "()" "[7]" "[[1, 2], [3, 4], [5, 6]]" "1 / 2" example_fit]
    reading_engine_keeps a b
  show ?thesis by blast
qed

text \<open>
  The claim C6 as stated fails for the robot data: with an engine whose forward kinematics
  writes the configuration and velocity into the data, as the code relies on when it reads
  the frame placement back from the same data, createEESplines returns the data changed.
\<close>

theorem robot_data_mutated:
  "snd (snd (createEESplines example_engine example_wrapper () [] [[1, 2], [3, 4], [5, 6]] (1 / 2))) = [5, 6] \<and>
   snd (snd (createEESplines example_engine example_wrapper () [] [[1, 2], [3, 4], [5, 6]] (1 / 2))) \<noteq> []"
  by (simp only: example_ee_run snd_conv) simp

subsection \<open>What the loop over the segments writes\<close>

lemma set_block_row:
  assumes "set_block A n (n + nt) c0 c1 V = Inr A'" and "n + nt \<le> nrows A"
    and "c0 \<le> c1" and "c1 \<le> ncols A" and "nrows V = nt" and "ncols V = c1 - c0" and "j < nt"
  shows "length (rows A' ! (n + j)) = ncols A"
    and "\<And>c. c < ncols A \<Longrightarrow>
           rows A' ! (n + j) ! c = (if c0 \<le> c \<and> c < c1 then rows V ! j ! (c - c0) else rows A ! (n + j) ! c)"
proof -
  have a: "min n (nrows A) = n" and b: "max n (min (n + nt) (nrows A)) = n + nt"
    and c: "min c0 (ncols A) = c0" and d: "max c0 (min c1 (ncols A)) = c1"
    using assms(2,3,4) by simp_all
  have ri: "(if nrows V = 1 then 0 else n + j - n) = j"
    using assms(5,7) by simp
  have A': "rows A' = map (\<lambda>i. if n \<le> i \<and> i < n + nt
                          then map (\<lambda>j. if c0 \<le> j \<and> j < c1
                                         then rows V ! (if nrows V = 1 then 0 else i - n)
                                                     ! (if ncols V = 1 then 0 else j - c0)
                                         else rows A ! i ! j)
                                   [0..<ncols A]
                          else rows A ! i)
                    [0..<nrows A]"
    using assms(1) unfolding set_block_def Let_def a b c d
    by (auto split: if_splits)
  have lt: "n + j < nrows A" using assms(2,7) by simp
  have row: "rows A' ! (n + j) = map (\<lambda>c. if c0 \<le> c \<and> c < c1
                                         then rows V ! j ! (if ncols V = 1 then 0 else c - c0)
                                         else rows A ! (n + j) ! c) [0..<ncols A]"
  proof -
    have j0: "nrows V = 1 \<Longrightarrow> j = 0" using assms(5,7) by simp
    show ?thesis
      unfolding A' using lt assms(7) j0 by auto
  qed
  show "length (rows A' ! (n + j)) = ncols A"
    unfolding row by simp
  fix c assume cl: "c < ncols A"
  have ci: "ncols V = 1 \<Longrightarrow> c0 \<le> c \<Longrightarrow> c < c1 \<Longrightarrow> c - c0 = 0"
    using assms(6) by auto
  show "rows A' ! (n + j) ! c = (if c0 \<le> c \<and> c < c1 then rows V ! j ! (c - c0) else rows A ! (n + j) ! c)"
    unfolding row using cl ci by auto
qed

lemma set_block_other:
  assumes "set_block A r0 r1 c0 c1 V = Inr A'" and "i < nrows A" and "\<not> (r0 \<le> i \<and> i < r1)"
  shows "rows A' ! i = rows A ! i"
proof -
  have "\<not> (min r0 (nrows A) \<le> i \<and> i < max (min r0 (nrows A)) (min r1 (nrows A)))"
    using assms(2,3) by auto
  then show ?thesis
    using assms(1,2) unfolding set_block_def Let_def
    by (auto split: if_splits)
qed

lemma set_block_ncols:
  assumes "set_block A r0 r1 c0 c1 V = Inr A'"
  shows "ncols V = max (min c0 (ncols A)) (min c1 (ncols A)) - min c0 (ncols A) \<or> ncols V = 1"
  using assms unfolding set_block_def Let_def by (auto split: if_splits)

lemma f_poly_Inr:
  "f_poly P t r = Inr vs \<Longrightarrow> vs = map (\<lambda>i. (P ! i) t) r \<and> (\<forall>i\<in>set r. i < length P)"
  by (induction r arbitrary: vs) (auto simp: bindE_eq_Inr split: if_splits)

lemma patch_rows_Inr:
  "patch_rows P p tt = Inr F \<Longrightarrow> tt \<noteq> [] \<Longrightarrow>
   \<exists>r. od_get range_def p = Inr r \<and> F = map (\<lambda>t. map (\<lambda>i. (P ! i) t) r) tt \<and> (\<forall>i\<in>set r. i < length P)"
proof (induction tt arbitrary: F)
  case Nil
  then show ?case by simp
next
  case (Cons t tt)
  from Cons.prems(1) obtain r row rest where r: "od_get range_def p = Inr r"
    and row: "f_poly P t r = Inr row" and rest: "patch_rows P p tt = Inr rest" and F: "F = row # rest"
    by (auto simp: bindE_eq_Inr)
  show ?case
  proof (cases "tt = []")
    case True
    with rest have "rest = []" by simp
    with r f_poly_Inr[OF row] F True show ?thesis by simp
  next
    case False
    from Cons.IH[OF rest False] r f_poly_Inr[OF row] F show ?thesis by simp
  qed
qed

lemma range_def_get:
  "od_get range_def p = Inr r \<Longrightarrow> length r = 6"
  by (auto simp: range_def_def od_get_def split: if_splits)

lemma fill_patches_get:
  "fill_patches P dP tt n nt ps fd = Inr fd' \<Longrightarrow> distinct ps \<Longrightarrow>
   (p \<notin> set ps \<longrightarrow> od_get (fst fd') p = od_get (fst fd) p \<and> od_get (snd fd') p = od_get (snd fd) p) \<and>
   (p \<in> set ps \<longrightarrow> (\<exists>F A A' dF B B'.
       patch_rows P p tt = Inr F \<and> od_get (fst fd) p = Inr A \<and>
       set_block A n (n + nt) 0 (ncols A) (np_array F) = Inr A' \<and> od_get (fst fd') p = Inr A' \<and>
       patch_rows dP p tt = Inr dF \<and> od_get (snd fd) p = Inr B \<and>
       set_block B n (n + nt) 0 (ncols B) (np_array dF) = Inr B' \<and> od_get (snd fd') p = Inr B'))"
proof (induction ps arbitrary: fd)
  case Nil
  then show ?case by simp
next
  case (Cons q ps)
  from Cons.prems(1) obtain F A A' dF B B' where
    F: "patch_rows P q tt = Inr F" and A: "od_get (fst fd) q = Inr A"
    and A': "set_block A n (n + nt) 0 (ncols A) (np_array F) = Inr A'"
    and dF: "patch_rows dP q tt = Inr dF" and B: "od_get (snd fd) q = Inr B"
    and B': "set_block B n (n + nt) 0 (ncols B) (np_array dF) = Inr B'"
    and rest: "fill_patches P dP tt n nt ps (od_update q A' (fst fd), od_update q B' (snd fd)) = Inr fd'"
    by (auto simp: bindE_eq_Inr)
  from Cons.prems(2) have d: "distinct ps" and q: "q \<notin> set ps" by simp_all
  note IH = Cons.IH[OF rest d]
  show ?case
  proof (cases "p = q")
    case True
    with q IH have "od_get (fst fd') p = Inr A' \<and> od_get (snd fd') p = Inr B'"
      by (simp add: od_get_od_update)
    with True F A A' dF B B' show ?thesis by auto
  next
    case False
    with IH show ?thesis by (simp add: od_get_od_update)
  qed
qed

lemma fill_patches_requires:
  "fill_patches P dP tt n nt ps fd = Inr fd' \<Longrightarrow> p \<in> set ps \<Longrightarrow>
   (\<exists>F. patch_rows P p tt = Inr F) \<and> (\<exists>dF. patch_rows dP p tt = Inr dF)"
proof (induction ps arbitrary: fd)
  case Nil
  then show ?case by simp
next
  case (Cons q ps)
  from Cons.prems(1) obtain F dF fd1 where
    F: "patch_rows P q tt = Inr F" and dF: "patch_rows dP q tt = Inr dF"
    and rest: "fill_patches P dP tt n nt ps fd1 = Inr fd'"
    by (auto simp: bindE_eq_Inr)
  show ?case
  proof (cases "p = q")
    case True
    with F dF show ?thesis by simp
  next
    case False
    with Cons.prems(2) have "p \<in> set ps" by simp
    from Cons.IH[OF rest this] show ?thesis .
  qed
qed


lemma fill_segment_InrE:
  assumes "fill_segment fit mass ps t n phi spl = Inr r"
  obtains cv va h1 d1 h2 d2 ft fd where
    "set_block (phi_com_vcom phi) n (n + nrows (state_trajectory spl)) 0 (ncols (phi_com_vcom phi)) (col_slice 0 6 (state_trajectory spl)) = Inr cv"
    "set_block (phi_vcom_acom phi) n (n + nrows (state_trajectory spl)) 0 (ncols (phi_vcom_acom phi)) (col_slice 0 6 (dot_state_trajectory spl)) = Inr va"
    "set_block (phi_hg phi) n (n + nrows (state_trajectory spl)) 3 (ncols (phi_hg phi)) (last_cols 3 (state_trajectory spl)) = Inr h1"
    "set_block (phi_dhg phi) n (n + nrows (state_trajectory spl)) 3 (ncols (phi_dhg phi)) (last_cols 3 (dot_state_trajectory spl)) = Inr d1"
    "set_block h1 n (n + nrows (state_trajectory spl)) 0 3 (scale mass (col_slice 3 6 (state_trajectory spl))) = Inr h2"
    "set_block d1 n (n + nrows (state_trajectory spl)) 0 3 (scale mass (col_slice 3 6 (dot_state_trajectory spl))) = Inr d2"
    "fit (take (nrows (state_trajectory spl)) (drop n t)) (control_trajectory spl) = Inr ft"
    "fill_patches (fst ft) (snd ft) (take (nrows (state_trajectory spl)) (drop n t)) n (nrows (state_trajectory spl)) ps (phi_f phi, phi_df phi) = Inr fd"
    "r = (\<lparr>phi_f = fst fd, phi_df = snd fd, phi_com_vcom = cv, phi_vcom_acom = va,
             phi_hg = h2, phi_dhg = d2\<rparr>, n + nrows (state_trajectory spl))"
  using assms by (auto simp: fill_segment_def Let_def bindE_eq_Inr)

lemma state_width:
  assumes "set_block C r0 r1 0 (ncols C) (col_slice 0 6 X) = Inr C'" and "ncols C = 6"
    and "set_block H1 r0 r1 0 3 (scale mass (col_slice 3 6 X)) = Inr H2" and "ncols H1 = 6"
  shows "6 \<le> ncols X"
proof -
  from set_block_ncols[OF assms(1)] assms(2) have a: "min 6 (ncols X) = 6 \<or> min 6 (ncols X) = 1"
    by (simp add: col_slice_def)
  from set_block_ncols[OF assms(3)] assms(4)
  have b: "min 6 (ncols X) - min 3 (ncols X) = 3 \<or> min 6 (ncols X) - min 3 (ncols X) = 1"
    by (simp add: col_slice_def scale_def)
  from a b show ?thesis by (auto simp: min_def split: if_splits)
qed

lemma hg_blocks:
  assumes h1: "set_block H n (n + nt) 3 (ncols H) (last_cols 3 X) = Inr H1"
    and h2: "set_block H1 n (n + nt) 0 3 (scale mass (col_slice 3 6 X)) = Inr H2"
    and H: "nrows H = N" "ncols H = 6" and bound: "n + nt \<le> N"
    and X: "nrows X = nt" "\<forall>r\<in>set (rows X). length r = ncols X" "6 \<le> ncols X"
  shows "\<forall>i<N. \<not> (n \<le> i \<and> i < n + nt) \<longrightarrow> rows H2 ! i = rows H ! i"
    and "\<forall>j<nt. rows H2 ! (n + j) = hg_row mass (rows X ! j)"
proof -
  from set_block_shape[OF h1] H have H1: "nrows H1 = N" "ncols H1 = 6" by simp_all
  show "\<forall>i<N. \<not> (n \<le> i \<and> i < n + nt) \<longrightarrow> rows H2 ! i = rows H ! i"
    using set_block_other[OF h1] set_block_other[OF h2] H H1 by simp
  show "\<forall>j<nt. rows H2 ! (n + j) = hg_row mass (rows X ! j)"
  proof (intro allI impI)
    fix j assume j: "j < nt"
    let ?x = "rows X ! j"
    from j X have lx: "length ?x = ncols X" by (simp add: nrows_def)
    have V1: "nrows (last_cols 3 X) = nt" "ncols (last_cols 3 X) = 6 - 3"
      using X by (simp_all add: last_cols_def col_slice_def nrows_def)
    have V2: "nrows (scale mass (col_slice 3 6 X)) = nt" "ncols (scale mass (col_slice 3 6 X)) = 3 - 0"
      using X by (simp_all add: scale_def col_slice_def nrows_def)
    have r1: "rows (last_cols 3 X) ! j = drop (length ?x - 3) ?x"
      using j X lx by (simp add: last_cols_def col_slice_def nrows_def)
    have r2: "rows (scale mass (col_slice 3 6 X)) ! j = map (\<lambda>v. mass * v) (take 3 (drop 3 ?x))"
      using j X by (simp add: scale_def col_slice_def nrows_def)
    have b1: "n + nt \<le> nrows H" and b2: "n + nt \<le> nrows H1" using bound H H1 by simp_all
    have c1: "(3::nat) \<le> 6" "6 \<le> ncols H" and c2: "(0::nat) \<le> 3" "3 \<le> ncols H1"
      using H H1 by simp_all
    have h1': "set_block H n (n + nt) 3 6 (last_cols 3 X) = Inr H1"
      using h1 H by simp
    note s1 = set_block_row[OF h1' b1 c1 V1 j]
    note s2 = set_block_row[OF h2 b2 c2 V2 j]
    show "rows H2 ! (n + j) = hg_row mass ?x"
    proof (rule nth_equalityI)
      show "length (rows H2 ! (n + j)) = length (hg_row mass ?x)"
        using s2(1) H1 lx X(3) by (simp add: hg_row_def)
    next
      fix c assume "c < length (rows H2 ! (n + j))"
      with s2(1) H1 have c: "c < 6" by simp
      show "rows H2 ! (n + j) ! c = hg_row mass ?x ! c"
      proof (cases "c < 3")
        case True
        then show ?thesis
          using s2(2)[of c] H1 c r2 lx X(3) by (simp add: hg_row_def nth_append)
      next
        case False
        then show ?thesis
          using s2(2)[of c] s1(2)[of c] H H1 c r1 lx X(3) by (simp add: hg_row_def nth_append)
      qed
    qed
  qed
qed

lemma fill_intervals_rows:
  fixes g :: "'a::times phic \<Rightarrow> 'a array2" and e :: "'a ms_interval \<Rightarrow> nat \<Rightarrow> 'a list"
  assumes step: "\<And>n phi spl r. fill_segment fit mass ps t n phi spl = Inr r \<Longrightarrow> phic_shape N S phi \<Longrightarrow>
        n + length (time_trajectory spl) \<le> N \<Longrightarrow> wf_interval spl \<Longrightarrow>
        take (length (time_trajectory spl)) (drop n t) = time_trajectory spl \<Longrightarrow> nrows (g phi) = N \<Longrightarrow>
        nrows (g (fst r)) = N \<and>
        (\<forall>i<N. \<not> (n \<le> i \<and> i < n + length (time_trajectory spl)) \<longrightarrow> rows (g (fst r)) ! i = rows (g phi) ! i) \<and>
        (\<forall>j<length (time_trajectory spl). rows (g (fst r)) ! (n + j) = e spl j)"
  shows "fill_intervals fit mass ps t spls n phi = Inr phi' \<Longrightarrow> phic_shape N S phi \<Longrightarrow> nrows (g phi) = N \<Longrightarrow>
     drop n t = concat (map time_trajectory spls) \<Longrightarrow> n \<le> length t \<Longrightarrow> length t = N \<Longrightarrow>
     \<forall>s\<in>set spls. wf_interval s \<Longrightarrow>
     (\<forall>i<n. rows (g phi') ! i = rows (g phi) ! i) \<and>
     (\<forall>k<length spls. \<forall>j<length (time_trajectory (spls ! k)).
         rows (g phi') ! (n + offset spls k + j) = e (spls ! k) j)"
proof (induction spls arbitrary: n phi)
  case Nil
  then show ?case by simp
next
  case (Cons spl spls)
  let ?nt = "length (time_trajectory spl)"
  from Cons.prems(1) obtain r where
    r: "fill_segment fit mass ps t n phi spl = Inr r"
    and rest: "fill_intervals fit mass ps t spls (snd r) (fst r) = Inr phi'"
    by (auto simp: bindE_eq_Inr)
  from Cons.prems(7) have wf: "wf_interval spl" and wfs: "\<forall>s\<in>set spls. wf_interval s" by simp_all
  from fill_segment_shape[OF r Cons.prems(2)] wf
  have shape1: "phic_shape N S (fst r)" and n1: "snd r = n + ?nt"
    by (simp_all add: wf_interval_def)
  from Cons.prems(4) have dr: "drop n t = time_trajectory spl @ concat (map time_trajectory spls)"
    by simp
  then have tk: "take ?nt (drop n t) = time_trajectory spl" by simp
  from dr have "length (drop n t) = ?nt + length (concat (map time_trajectory spls))"
    by (simp del: length_drop length_concat)
  with Cons.prems(5,6) have bound: "n + ?nt \<le> N" by simp
  have dr1: "drop (n + ?nt) t = concat (map time_trajectory spls)"
  proof -
    have "drop (n + ?nt) t = drop ?nt (drop n t)" by (simp add: add.commute)
    also have "\<dots> = concat (map time_trajectory spls)" unfolding dr by simp
    finally show ?thesis .
  qed
  from step[OF r Cons.prems(2) bound wf tk Cons.prems(3)]
  have g1: "nrows (g (fst r)) = N"
    and frame: "\<And>i. i < N \<Longrightarrow> \<not> (n \<le> i \<and> i < n + ?nt) \<Longrightarrow> rows (g (fst r)) ! i = rows (g phi) ! i"
    and written: "\<And>j. j < ?nt \<Longrightarrow> rows (g (fst r)) ! (n + j) = e spl j"
    by blast+
  from bound Cons.prems(6) have le1: "n + ?nt \<le> length t" by simp
  from Cons.IH[OF rest[unfolded n1] shape1 g1 dr1 le1 Cons.prems(6) wfs]
  have keep: "\<And>i. i < n + ?nt \<Longrightarrow> rows (g phi') ! i = rows (g (fst r)) ! i"
    and later: "\<And>k j. k < length spls \<Longrightarrow> j < length (time_trajectory (spls ! k)) \<Longrightarrow>
         rows (g phi') ! (n + ?nt + offset spls k + j) = e (spls ! k) j"
    by blast+
  show ?case
  proof (intro conjI allI impI)
    fix i assume i: "i < n"
    with bound have "i < N" by simp
    with keep[of i] frame[of i] i show "rows (g phi') ! i = rows (g phi) ! i" by simp
  next
    fix k j assume k: "k < length (spl # spls)" and j: "j < length (time_trajectory ((spl # spls) ! k))"
    show "rows (g phi') ! (n + offset (spl # spls) k + j) = e ((spl # spls) ! k) j"
    proof (cases k)
      case 0
      with j have j': "j < ?nt" by simp
      with keep[of "n + j"] written[OF j'] 0 show ?thesis by (simp add: offset_def)
    next
      case (Suc k')
      with k j have "k' < length spls" "j < length (time_trajectory (spls ! k'))" by simp_all
      from later[OF this] Suc show ?thesis by (simp add: offset_def add.assoc)
    qed
  qed
qed

lemma fill_segment_hg:
  assumes run: "fill_segment fit mass ps t n phi spl = Inr r" and shape: "phic_shape N S phi"
    and bound: "n + length (time_trajectory spl) \<le> N" and wf: "wf_interval spl"
  shows "nrows (phi_hg (fst r)) = N \<and>
        (\<forall>i<N. \<not> (n \<le> i \<and> i < n + length (time_trajectory spl)) \<longrightarrow> rows (phi_hg (fst r)) ! i = rows (phi_hg phi) ! i) \<and>
        (\<forall>j<length (time_trajectory spl). rows (phi_hg (fst r)) ! (n + j) = hg_row mass (rows (state_trajectory spl) ! j))"
    and "nrows (phi_dhg (fst r)) = N \<and>
        (\<forall>i<N. \<not> (n \<le> i \<and> i < n + length (time_trajectory spl)) \<longrightarrow> rows (phi_dhg (fst r)) ! i = rows (phi_dhg phi) ! i) \<and>
        (\<forall>j<length (time_trajectory spl). rows (phi_dhg (fst r)) ! (n + j) = hg_row mass (rows (dot_state_trajectory spl) ! j))"
    and "length (time_trajectory spl) \<noteq> 0 \<longrightarrow>
           6 \<le> ncols (state_trajectory spl) \<and> 6 \<le> ncols (dot_state_trajectory spl)"
proof -
  let ?x = "state_trajectory spl" and ?dx = "dot_state_trajectory spl"
  let ?nt = "length (time_trajectory spl)"
  from wf have nx: "nrows ?x = ?nt" and ndx: "nrows ?dx = ?nt"
    and rx: "\<forall>r\<in>set (rows ?x). length r = ncols ?x"
    and rdx: "\<forall>r\<in>set (rows ?dx). length r = ncols ?dx"
    by (simp_all add: wf_interval_def)
  from shape have sh: "nrows (phi_hg phi) = N" "ncols (phi_hg phi) = 6"
    "nrows (phi_dhg phi) = N" "ncols (phi_dhg phi) = 6"
    "ncols (phi_com_vcom phi) = 6" "ncols (phi_vcom_acom phi) = 6"
    by (simp_all add: phic_shape_def)
  from run obtain cv va h1 d1 h2 d2 fd where
    cv: "set_block (phi_com_vcom phi) n (n + ?nt) 0 (ncols (phi_com_vcom phi)) (col_slice 0 6 ?x) = Inr cv"
    and va: "set_block (phi_vcom_acom phi) n (n + ?nt) 0 (ncols (phi_vcom_acom phi)) (col_slice 0 6 ?dx) = Inr va"
    and h1: "set_block (phi_hg phi) n (n + ?nt) 3 (ncols (phi_hg phi)) (last_cols 3 ?x) = Inr h1"
    and d1: "set_block (phi_dhg phi) n (n + ?nt) 3 (ncols (phi_dhg phi)) (last_cols 3 ?dx) = Inr d1"
    and h2: "set_block h1 n (n + ?nt) 0 3 (scale mass (col_slice 3 6 ?x)) = Inr h2"
    and d2: "set_block d1 n (n + ?nt) 0 3 (scale mass (col_slice 3 6 ?dx)) = Inr d2"
    and r: "r = (\<lparr>phi_f = fst fd, phi_df = snd fd, phi_com_vcom = cv, phi_vcom_acom = va,
             phi_hg = h2, phi_dhg = d2\<rparr>, n + ?nt)"
    by (rule fill_segment_InrE) (simp add: nx)
  have h1s: "ncols h1 = 6" "nrows h1 = N" and d1s: "ncols d1 = 6" "nrows d1 = N"
    using set_block_shape[OF h1] set_block_shape[OF d1] sh by simp_all
  have wx: "6 \<le> ncols ?x" by (rule state_width[OF cv sh(5) h2 h1s(1)])
  have wdx: "6 \<le> ncols ?dx" by (rule state_width[OF va sh(6) d2 d1s(1)])
  have fr: "phi_hg (fst r) = h2" "phi_dhg (fst r) = d2" by (simp_all add: r)
  have n2: "nrows h2 = N" "nrows d2 = N"
    using set_block_shape[OF h2] set_block_shape[OF d2] h1s d1s by simp_all
  show "nrows (phi_hg (fst r)) = N \<and>
        (\<forall>i<N. \<not> (n \<le> i \<and> i < n + ?nt) \<longrightarrow> rows (phi_hg (fst r)) ! i = rows (phi_hg phi) ! i) \<and>
        (\<forall>j<?nt. rows (phi_hg (fst r)) ! (n + j) = hg_row mass (rows ?x ! j))"
    unfolding fr
    using hg_blocks[OF h1 h2 sh(1,2) bound nx rx wx] n2 by blast
  show "nrows (phi_dhg (fst r)) = N \<and>
        (\<forall>i<N. \<not> (n \<le> i \<and> i < n + ?nt) \<longrightarrow> rows (phi_dhg (fst r)) ! i = rows (phi_dhg phi) ! i) \<and>
        (\<forall>j<?nt. rows (phi_dhg (fst r)) ! (n + j) = hg_row mass (rows ?dx ! j))"
    unfolding fr
    using hg_blocks[OF d1 d2 sh(3,4) bound ndx rdx wdx] n2 by blast
  show "?nt \<noteq> 0 \<longrightarrow> 6 \<le> ncols ?x \<and> 6 \<le> ncols ?dx"
    using wx wdx by simp
qed

lemma phi_samples_hg:
  assumes run: "phi_samples fit mass ps spls = Inr (t, phi)" and wf: "\<forall>s\<in>set spls. wf_interval s"
    and k: "k < length spls" and j: "j < length (time_trajectory (spls ! k))"
  shows "rows (phi_hg phi) ! (offset spls k + j) = hg_row mass (rows (state_trajectory (spls ! k)) ! j)"
    and "rows (phi_dhg phi) ! (offset spls k + j) = hg_row mass (rows (dot_state_trajectory (spls ! k)) ! j)"
proof -
  let ?N = "length t"
  from run have t: "t = concat (map time_trajectory spls)"
    and loop: "fill_intervals fit mass ps t spls 0 (PhiC ps ?N) = Inr phi"
    by (auto simp: phi_samples_def Let_def bindE_eq_Inr)
  have shape: "phic_shape ?N (set ps) (PhiC ps ?N)" by (rule PhiC_shape)
  then have n0: "nrows (phi_hg (PhiC ps ?N)) = ?N" "nrows (phi_dhg (PhiC ps ?N)) = ?N"
    unfolding phic_shape_def by blast+
  have dr: "drop 0 t = concat (map time_trajectory spls)" using t by simp
  have a: "(\<forall>i<0. rows (phi_hg phi) ! i = rows (phi_hg (PhiC ps ?N)) ! i) \<and>
     (\<forall>k<length spls. \<forall>j<length (time_trajectory (spls ! k)).
         rows (phi_hg phi) ! (0 + offset spls k + j) = hg_row mass (rows (state_trajectory (spls ! k)) ! j))"
    by (rule fill_intervals_rows[where g = phi_hg and N = ?N and S = "set ps",
          OF _ loop shape n0(1) dr _ refl wf])
       (use fill_segment_hg(1) in blast, simp)
  have b: "(\<forall>i<0. rows (phi_dhg phi) ! i = rows (phi_dhg (PhiC ps ?N)) ! i) \<and>
     (\<forall>k<length spls. \<forall>j<length (time_trajectory (spls ! k)).
         rows (phi_dhg phi) ! (0 + offset spls k + j) = hg_row mass (rows (dot_state_trajectory (spls ! k)) ! j))"
    by (rule fill_intervals_rows[where g = phi_dhg and N = ?N and S = "set ps",
          OF _ loop shape n0(2) dr _ refl wf])
       (use fill_segment_hg(2) in blast, simp)
  from a k j show "rows (phi_hg phi) ! (offset spls k + j) = hg_row mass (rows (state_trajectory (spls ! k)) ! j)"
    by simp
  from b k j show "rows (phi_dhg phi) ! (offset spls k + j) = hg_row mass (rows (dot_state_trajectory (spls ! k)) ! j)"
    by simp
qed

lemma fill_intervals_all:
  fixes Q :: "('a::times) ms_interval \<Rightarrow> bool"
  assumes step: "\<And>n phi spl r. fill_segment fit mass ps t n phi spl = Inr r \<Longrightarrow> phic_shape N S phi \<Longrightarrow>
        n + length (time_trajectory spl) \<le> N \<Longrightarrow> wf_interval spl \<Longrightarrow>
        take (length (time_trajectory spl)) (drop n t) = time_trajectory spl \<Longrightarrow> Q spl"
  shows "fill_intervals fit mass ps t spls n phi = Inr phi' \<Longrightarrow> phic_shape N S phi \<Longrightarrow>
     drop n t = concat (map time_trajectory spls) \<Longrightarrow> n \<le> length t \<Longrightarrow> length t = N \<Longrightarrow>
     \<forall>s\<in>set spls. wf_interval s \<Longrightarrow> \<forall>s\<in>set spls. Q s"
proof (induction spls arbitrary: n phi)
  case Nil
  then show ?case by simp
next
  case (Cons spl spls)
  let ?nt = "length (time_trajectory spl)"
  from Cons.prems(1) obtain r where
    r: "fill_segment fit mass ps t n phi spl = Inr r"
    and rest: "fill_intervals fit mass ps t spls (snd r) (fst r) = Inr phi'"
    by (auto simp: bindE_eq_Inr)
  from Cons.prems(6) have wf: "wf_interval spl" and wfs: "\<forall>s\<in>set spls. wf_interval s" by simp_all
  from fill_segment_shape[OF r Cons.prems(2)] wf
  have shape1: "phic_shape N S (fst r)" and n1: "snd r = n + ?nt"
    by (simp_all add: wf_interval_def)
  from Cons.prems(3) have dr: "drop n t = time_trajectory spl @ concat (map time_trajectory spls)"
    by simp
  then have tk: "take ?nt (drop n t) = time_trajectory spl" by simp
  from dr have "length (drop n t) = ?nt + length (concat (map time_trajectory spls))"
    by (simp del: length_drop length_concat)
  with Cons.prems(4,5) have bound: "n + ?nt \<le> N" by simp
  have dr1: "drop (n + ?nt) t = concat (map time_trajectory spls)"
  proof -
    have "drop (n + ?nt) t = drop ?nt (drop n t)" by (simp add: add.commute)
    also have "\<dots> = concat (map time_trajectory spls)" unfolding dr by simp
    finally show ?thesis .
  qed
  from bound Cons.prems(5) have le1: "n + ?nt \<le> length t" by simp
  have "Q spl" by (rule step[OF r Cons.prems(2) bound wf tk])
  moreover have "\<forall>s\<in>set spls. Q s"
    by (rule Cons.IH[OF rest[unfolded n1] shape1 dr1 le1 Cons.prems(5) wfs])
  ultimately show ?case by simp
qed

lemma phi_samples_all:
  fixes Q :: "('a::{zero,times}) ms_interval \<Rightarrow> bool"
  assumes step: "\<And>n phi spl r. fill_segment fit mass ps (concat (map time_trajectory spls)) n phi spl = Inr r \<Longrightarrow>
        phic_shape (length (concat (map time_trajectory spls))) (set ps) phi \<Longrightarrow>
        n + length (time_trajectory spl) \<le> length (concat (map time_trajectory spls)) \<Longrightarrow> wf_interval spl \<Longrightarrow>
        take (length (time_trajectory spl)) (drop n (concat (map time_trajectory spls))) = time_trajectory spl \<Longrightarrow> Q spl"
    and run: "phi_samples fit mass ps spls = Inr (t, phi)" and wf: "\<forall>s\<in>set spls. wf_interval s"
  shows "\<forall>s\<in>set spls. Q s"
proof -
  let ?t = "concat (map time_trajectory spls)"
  from run have loop: "fill_intervals fit mass ps ?t spls 0 (PhiC ps (length ?t)) = Inr phi"
    by (auto simp: phi_samples_def Let_def bindE_eq_Inr)
  have dr: "drop 0 ?t = concat (map time_trajectory spls)" by simp
  show ?thesis
    by (rule fill_intervals_all[where Q = Q and N = "length ?t" and S = "set ps",
          OF step loop PhiC_shape dr _ refl wf]) simp_all
qed

lemma hg_row_nth:
  assumes "6 \<le> length x" and "c < 3"
  shows "hg_row mass x ! c = mass * x ! (3 + c)"
    and "hg_row mass x ! (3 + c) = x ! (length x - 3 + c)"
  using assms by (simp_all add: hg_row_def nth_append)

text \<open>
  Claim C4. For well-formed segments (state and state-derivative arrays with one row per
  timestamp) and a loop over the segments that completes, take row \<open>j\<close> of segment \<open>k\<close>,
  stored at row \<open>offset spls k + j\<close>. Columns 0 to 2 of the angular-momentum array are the
  mass times columns 3 to 5 of the state row, and columns 3 to 5 are the last three columns
  of the state row; the rate array is built in the same way from the state-derivative row.
\<close>

theorem angular_momentum_scaling:
  assumes "phi_samples polyfitND mass patch_names spls = Inr (t, phi)"
    and "\<forall>s\<in>set spls. wf_interval s"
    and "k < length spls" and "j < length (time_trajectory (spls ! k))" and "c < 3"
  shows "rows (phi_hg phi) ! (offset spls k + j) ! c
           = mass * rows (state_trajectory (spls ! k)) ! j ! (3 + c) \<and>
         rows (phi_hg phi) ! (offset spls k + j) ! (3 + c)
           = rows (state_trajectory (spls ! k)) ! j ! (ncols (state_trajectory (spls ! k)) - 3 + c) \<and>
         rows (phi_dhg phi) ! (offset spls k + j) ! c
           = mass * rows (dot_state_trajectory (spls ! k)) ! j ! (3 + c) \<and>
         rows (phi_dhg phi) ! (offset spls k + j) ! (3 + c)
           = rows (dot_state_trajectory (spls ! k)) ! j ! (ncols (dot_state_trajectory (spls ! k)) - 3 + c)"
proof -
  let ?s = "spls ! k"
  let ?x = "rows (state_trajectory ?s) ! j" and ?dx = "rows (dot_state_trajectory ?s) ! j"
  from assms(3) have mem: "?s \<in> set spls" by simp
  with assms(2) have wf: "wf_interval ?s" by blast
  from wf assms(4) have lx: "length ?x = ncols (state_trajectory ?s)"
    and ldx: "length ?dx = ncols (dot_state_trajectory ?s)"
    by (simp_all add: wf_interval_def nrows_def)
  have "\<forall>s\<in>set spls. length (time_trajectory s) \<noteq> 0 \<longrightarrow>
           6 \<le> ncols (state_trajectory s) \<and> 6 \<le> ncols (dot_state_trajectory s)"
    by (rule phi_samples_all[OF _ assms(1,2)]) (rule fill_segment_hg(3))
  with mem assms(4) have w: "6 \<le> ncols (state_trajectory ?s)" "6 \<le> ncols (dot_state_trajectory ?s)"
    by auto
  note rowsq = phi_samples_hg[OF assms(1,2,3,4)]
  show ?thesis
    unfolding rowsq
    using hg_row_nth[of ?x c mass] hg_row_nth[of ?dx c mass] w lx ldx assms(5)
    by simp
qed

lemma example_samples_run:
  "\<not> isl (phi_samples example_fit 2 [''RF_patch''] example_intervals)"
  by code_simp

lemma example_intervals_wf:
  "wf_interval (example_segment [0, 1, 2] 100 6)" "wf_interval (example_segment [2, 3, 4] 200 6)"
  by code_simp+

theorem angular_momentum_scaling_witness:
  "\<not> isl (phi_samples example_fit 2 [''RF_patch''] example_intervals) \<and>
   wf_interval (example_intervals ! 0) \<and> wf_interval (example_intervals ! 1) \<and>
   rows (phi_hg (snd (projr (phi_samples example_fit 2 [''RF_patch''] example_intervals)))) ! (offset example_intervals 1 + 0) ! 0
           = 2 * rows (state_trajectory (example_intervals ! 1)) ! 0 ! (3 + 0) \<and>
   rows (phi_hg (snd (projr (phi_samples example_fit 2 [''RF_patch''] example_intervals)))) ! (offset example_intervals 1 + 0) ! (3 + 0)
           = rows (state_trajectory (example_intervals ! 1)) ! 0 ! (ncols (state_trajectory (example_intervals ! 1)) - 3 + 0) \<and>
   rows (phi_hg (snd (projr (phi_samples example_fit 2 [''RF_patch''] example_intervals)))) ! 3 = [446, 448, 450, 226, 227, 228] \<and>
   rows (state_trajectory (example_intervals ! 1)) ! 0 = [220, 221, 222, 223, 224, 225, 226, 227, 228]"
proof -
  let ?r = "phi_samples example_fit 2 [''RF_patch''] example_intervals"
  have run: "?r = Inr (fst (projr ?r), snd (projr ?r))"
    using example_samples_run by (cases ?r) simp_all
  have wf: "\<forall>s\<in>set example_intervals. wf_interval s"
    using example_intervals_wf by (simp add: example_intervals_def)
  have wf01: "wf_interval (example_intervals ! 0)" "wf_interval (example_intervals ! 1)"
    using example_intervals_wf by (simp_all add: example_intervals_def)
  have k: "1 < length example_intervals" by (simp add: example_intervals_def)
  have j: "0 < length (time_trajectory (example_intervals ! 1))"
    by (simp add: example_intervals_def example_segment_def)
  have c: "(0::nat) < 3" by simp
  have v1: "rows (phi_hg (snd (projr ?r))) ! 3 = [446, 448, 450, 226, 227, 228]"
    by code_simp
  have v2: "rows (state_trajectory (example_intervals ! 1)) ! 0 = [220, 221, 222, 223, 224, 225, 226, 227, 228]"
    by code_simp
  from angular_momentum_scaling[OF run wf k j c] example_samples_run wf01 v1 v2
  show ?thesis by blast
qed

lemma patch_block:
  assumes F: "patch_rows P p tt = Inr F" and A': "set_block A n (n + nt) 0 (ncols A) (np_array F) = Inr A'"
    and A: "nrows A = N" "ncols A = 6" and bound: "n + nt \<le> N" and tt: "length tt = nt"
  shows "nrows A' = N"
    and "\<forall>i<N. \<not> (n \<le> i \<and> i < n + nt) \<longrightarrow> rows A' ! i = rows A ! i"
    and "\<forall>j<nt. rows A' ! (n + j) = map (\<lambda>i. (P ! i) (tt ! j)) (projr (od_get range_def p))"
proof -
  show "nrows A' = N" using set_block_shape[OF A'] A by simp
  show "\<forall>i<N. \<not> (n \<le> i \<and> i < n + nt) \<longrightarrow> rows A' ! i = rows A ! i"
    using set_block_other[OF A'] A by simp
  show "\<forall>j<nt. rows A' ! (n + j) = map (\<lambda>i. (P ! i) (tt ! j)) (projr (od_get range_def p))"
  proof (intro allI impI)
    fix j assume j: "j < nt"
    with tt have ne: "tt \<noteq> []" by auto
    from patch_rows_Inr[OF F ne] obtain r where r: "od_get range_def p = Inr r"
      and Fe: "F = map (\<lambda>t. map (\<lambda>i. (P ! i) t) r) tt" by blast
    from range_def_get[OF r] have lr: "length r = 6" .
    from ne obtain t0 tt' where tt0: "tt = t0 # tt'" by (cases tt) auto
    have V: "nrows (np_array F) = nt" "ncols (np_array F) = 6 - 0"
      using tt lr unfolding Fe tt0 by (simp_all add: np_array_def nrows_def)
    have Fj: "rows (np_array F) ! j = map (\<lambda>i. (P ! i) (tt ! j)) r"
      using j tt unfolding Fe by (simp add: np_array_def)
    have b: "n + nt \<le> nrows A" using bound A by simp
    have c: "(0::nat) \<le> 6" "6 \<le> ncols A" using A by simp_all
    have A6: "set_block A n (n + nt) 0 6 (np_array F) = Inr A'" using A' A by simp
    note s = set_block_row[OF A6 b c V j]
    have "rows A' ! (n + j) = map (\<lambda>i. (P ! i) (tt ! j)) r"
    proof (rule nth_equalityI)
      show "length (rows A' ! (n + j)) = length (map (\<lambda>i. (P ! i) (tt ! j)) r)"
        using s(1) A lr by simp
    next
      fix c assume "c < length (rows A' ! (n + j))"
      with s(1) A have c: "c < 6" by simp
      with s(2)[of c] A Fj show "rows A' ! (n + j) ! c = map (\<lambda>i. (P ! i) (tt ! j)) r ! c"
        by simp
    qed
    with r show "rows A' ! (n + j) = map (\<lambda>i. (P ! i) (tt ! j)) (projr (od_get range_def p))"
      by simp
  qed
qed

lemma fill_segment_patch:
  assumes run: "fill_segment fit mass ps t n phi spl = Inr r" and shape: "phic_shape N S phi"
    and bound: "n + length (time_trajectory spl) \<le> N" and wf: "wf_interval spl"
    and tk: "take (length (time_trajectory spl)) (drop n t) = time_trajectory spl"
    and dist: "distinct ps" and p: "p \<in> set ps"
  shows "nrows (projr (od_get (phi_f phi) p)) = N \<longrightarrow>
        nrows (projr (od_get (phi_f (fst r)) p)) = N \<and>
        (\<forall>i<N. \<not> (n \<le> i \<and> i < n + length (time_trajectory spl)) \<longrightarrow>
            rows (projr (od_get (phi_f (fst r)) p)) ! i = rows (projr (od_get (phi_f phi) p)) ! i) \<and>
        (\<forall>j<length (time_trajectory spl). rows (projr (od_get (phi_f (fst r)) p)) ! (n + j) =
            map (\<lambda>i. (fst (projr (fit (time_trajectory spl) (control_trajectory spl))) ! i) (time_trajectory spl ! j))
                (projr (od_get range_def p)))"
    and "nrows (projr (od_get (phi_df phi) p)) = N \<longrightarrow>
        nrows (projr (od_get (phi_df (fst r)) p)) = N \<and>
        (\<forall>i<N. \<not> (n \<le> i \<and> i < n + length (time_trajectory spl)) \<longrightarrow>
            rows (projr (od_get (phi_df (fst r)) p)) ! i = rows (projr (od_get (phi_df phi) p)) ! i) \<and>
        (\<forall>j<length (time_trajectory spl). rows (projr (od_get (phi_df (fst r)) p)) ! (n + j) =
            map (\<lambda>i. (snd (projr (fit (time_trajectory spl) (control_trajectory spl))) ! i) (time_trajectory spl ! j))
                (projr (od_get range_def p)))"
proof -
  let ?nt = "length (time_trajectory spl)" and ?tt = "time_trajectory spl"
  from wf have nx: "nrows (state_trajectory spl) = ?nt" by (simp add: wf_interval_def)
  from run obtain ft fd where
    ft: "fit ?tt (control_trajectory spl) = Inr ft"
    and fd: "fill_patches (fst ft) (snd ft) ?tt n ?nt ps (phi_f phi, phi_df phi) = Inr fd"
    and r: "phi_f (fst r) = fst fd" "phi_df (fst r) = snd fd"
    by (rule fill_segment_InrE) (simp add: nx tk)
  from fill_patches_get[OF fd dist, of p] p obtain F A A' dF B B' where
    F: "patch_rows (fst ft) p ?tt = Inr F" and A: "od_get (phi_f phi) p = Inr A"
    and A': "set_block A n (n + ?nt) 0 (ncols A) (np_array F) = Inr A'" and gA': "od_get (fst fd) p = Inr A'"
    and dF: "patch_rows (snd ft) p ?tt = Inr dF" and B: "od_get (phi_df phi) p = Inr B"
    and B': "set_block B n (n + ?nt) 0 (ncols B) (np_array dF) = Inr B'" and gB': "od_get (snd fd) p = Inr B'"
    by auto
  from shape A B have cA: "ncols A = 6" and cB: "ncols B = 6"
    unfolding phic_shape_def dict_shape_def by blast+
  show "nrows (projr (od_get (phi_f phi) p)) = N \<longrightarrow>
        nrows (projr (od_get (phi_f (fst r)) p)) = N \<and>
        (\<forall>i<N. \<not> (n \<le> i \<and> i < n + ?nt) \<longrightarrow>
            rows (projr (od_get (phi_f (fst r)) p)) ! i = rows (projr (od_get (phi_f phi) p)) ! i) \<and>
        (\<forall>j<?nt. rows (projr (od_get (phi_f (fst r)) p)) ! (n + j) =
            map (\<lambda>i. (fst (projr (fit ?tt (control_trajectory spl))) ! i) (?tt ! j))
                (projr (od_get range_def p)))"
  proof
    assume "nrows (projr (od_get (phi_f phi) p)) = N"
    with A have nA: "nrows A = N" by simp
    from patch_block[OF F A' nA cA bound refl]
    show "nrows (projr (od_get (phi_f (fst r)) p)) = N \<and>
        (\<forall>i<N. \<not> (n \<le> i \<and> i < n + ?nt) \<longrightarrow>
            rows (projr (od_get (phi_f (fst r)) p)) ! i = rows (projr (od_get (phi_f phi) p)) ! i) \<and>
        (\<forall>j<?nt. rows (projr (od_get (phi_f (fst r)) p)) ! (n + j) =
            map (\<lambda>i. (fst (projr (fit ?tt (control_trajectory spl))) ! i) (?tt ! j))
                (projr (od_get range_def p)))"
      unfolding r gA' A ft by simp
  qed
  show "nrows (projr (od_get (phi_df phi) p)) = N \<longrightarrow>
        nrows (projr (od_get (phi_df (fst r)) p)) = N \<and>
        (\<forall>i<N. \<not> (n \<le> i \<and> i < n + ?nt) \<longrightarrow>
            rows (projr (od_get (phi_df (fst r)) p)) ! i = rows (projr (od_get (phi_df phi) p)) ! i) \<and>
        (\<forall>j<?nt. rows (projr (od_get (phi_df (fst r)) p)) ! (n + j) =
            map (\<lambda>i. (snd (projr (fit ?tt (control_trajectory spl))) ! i) (?tt ! j))
                (projr (od_get range_def p)))"
  proof
    assume "nrows (projr (od_get (phi_df phi) p)) = N"
    with B have nB: "nrows B = N" by simp
    from patch_block[OF dF B' nB cB bound refl]
    show "nrows (projr (od_get (phi_df (fst r)) p)) = N \<and>
        (\<forall>i<N. \<not> (n \<le> i \<and> i < n + ?nt) \<longrightarrow>
            rows (projr (od_get (phi_df (fst r)) p)) ! i = rows (projr (od_get (phi_df phi) p)) ! i) \<and>
        (\<forall>j<?nt. rows (projr (od_get (phi_df (fst r)) p)) ! (n + j) =
            map (\<lambda>i. (snd (projr (fit ?tt (control_trajectory spl))) ! i) (?tt ! j))
                (projr (od_get range_def p)))"
      unfolding r gB' B ft by simp
  qed
qed

lemma phi_samples_patch:
  fixes phi :: "('a::{zero,times}) phic"
  assumes run: "phi_samples fit mass ps spls = Inr (t, phi)" and wf: "\<forall>s\<in>set spls. wf_interval s"
    and dist: "distinct ps" and p: "p \<in> set ps"
    and k: "k < length spls" and j: "j < length (time_trajectory (spls ! k))"
  shows "\<exists>F dF. od_get (phi_f phi) p = Inr F \<and> od_get (phi_df phi) p = Inr dF \<and>
     rows F ! (offset spls k + j) =
       map (\<lambda>i. (fst (projr (fit (time_trajectory (spls ! k)) (control_trajectory (spls ! k)))) ! i)
                   (time_trajectory (spls ! k) ! j)) (projr (od_get range_def p)) \<and>
     rows dF ! (offset spls k + j) =
       map (\<lambda>i. (snd (projr (fit (time_trajectory (spls ! k)) (control_trajectory (spls ! k)))) ! i)
                   (time_trajectory (spls ! k) ! j)) (projr (od_get range_def p))"
proof -
  let ?N = "length t"
  let ?g = "\<lambda>phi. projr (od_get (phi_f phi) p)" and ?dg = "\<lambda>phi. projr (od_get (phi_df phi) p)"
  let ?e = "\<lambda>spl j. map (\<lambda>i. (fst (projr (fit (time_trajectory spl) (control_trajectory spl))) ! i)
                   (time_trajectory spl ! j)) (projr (od_get range_def p))"
  let ?de = "\<lambda>spl j. map (\<lambda>i. (snd (projr (fit (time_trajectory spl) (control_trajectory spl))) ! i)
                   (time_trajectory spl ! j)) (projr (od_get range_def p))"
  from run have t: "t = concat (map time_trajectory spls)"
    and loop: "fill_intervals fit mass ps t spls 0 (PhiC ps ?N) = Inr phi"
    by (auto simp: phi_samples_def Let_def bindE_eq_Inr)
  have shape: "phic_shape ?N (set ps) (PhiC ps ?N :: 'a phic)" by (rule PhiC_shape)
  from phic_shape_dict[OF shape p] obtain F0 G0 where
    "od_get (phi_f (PhiC ps ?N :: 'a phic)) p = Inr F0" "od_get (phi_df (PhiC ps ?N :: 'a phic)) p = Inr G0"
    "nrows F0 = ?N" "nrows G0 = ?N" by blast
  then have n0: "nrows (?g (PhiC ps ?N :: 'a phic)) = ?N" "nrows (?dg (PhiC ps ?N :: 'a phic)) = ?N"
    by simp_all
  from phi_samples_shape[OF run] have "phic_shape ?N (set ps) phi" by blast
  from phic_shape_dict[OF this p] obtain F dF where
    F: "od_get (phi_f phi) p = Inr F" and dF: "od_get (phi_df phi) p = Inr dF" by blast
  have dr: "drop 0 t = concat (map time_trajectory spls)" using t by simp
  have a: "(\<forall>i<0. rows (?g phi) ! i = rows (?g (PhiC ps ?N)) ! i) \<and>
     (\<forall>k<length spls. \<forall>j<length (time_trajectory (spls ! k)).
         rows (?g phi) ! (0 + offset spls k + j) = ?e (spls ! k) j)"
    by (rule fill_intervals_rows[where g = ?g and e = ?e and N = ?N and S = "set ps",
          OF _ loop shape n0(1) dr _ refl wf])
       (use fill_segment_patch(1)[OF _ _ _ _ _ dist p] in blast, simp)
  have b: "(\<forall>i<0. rows (?dg phi) ! i = rows (?dg (PhiC ps ?N)) ! i) \<and>
     (\<forall>k<length spls. \<forall>j<length (time_trajectory (spls ! k)).
         rows (?dg phi) ! (0 + offset spls k + j) = ?de (spls ! k) j)"
    by (rule fill_intervals_rows[where g = ?dg and e = ?de and N = ?N and S = "set ps",
          OF _ loop shape n0(2) dr _ refl wf])
       (use fill_segment_patch(2)[OF _ _ _ _ _ dist p] in blast, simp)
  from a b k j F dF show ?thesis by simp
qed

lemma range_def_value:
  "range_def = [(''RF_patch'', [0..<6]), (''LF_patch'', [6..<12]), (''RH_patch'', [12..<18]), (''LH_patch'', [18..<24])]"
  by (simp add: range_def_def)

lemma range_def_partition:
  "od_keys range_def = [''RF_patch'', ''LF_patch'', ''RH_patch'', ''LH_patch''] \<and>
   map snd range_def = [[0..<6], [6..<12], [12..<18], [18..<24]] \<and>
   concat (map snd range_def) = [0..<24]"
  by code_simp

lemma range_def_LH: "od_get range_def ''LH_patch'' = Inr [18..<24]"
  by code_simp

lemma last_six:
  assumes "length P = 24"
  shows "map (\<lambda>i. (P ! i) x) [18..<24] = map (\<lambda>q. q x) (drop (length P - 6) P)"
proof (rule nth_equalityI)
  show "length (map (\<lambda>i. (P ! i) x) [18..<24]) = length (map (\<lambda>q. q x) (drop (length P - 6) P))"
    using assms by simp
next
  fix i assume "i < length (map (\<lambda>i. (P ! i) x) [18..<24])"
  then have i: "i < 24 - 18" by simp
  have L: "map (\<lambda>i. (P ! i) x) [18..<24] ! i = (P ! (18 + i)) x"
    by (rule nth_map_upt[OF i])
  have R: "map (\<lambda>q. q x) (drop (length P - 6) P) ! i = (P ! (18 + i)) x"
    using i assms by simp
  show "map (\<lambda>i. (P ! i) x) [18..<24] ! i = map (\<lambda>q. q x) (drop (length P - 6) P) ! i"
    unfolding L R by (rule refl)
qed

text \<open>
  Claim C5. The fixed table assigns the four patches the ranges 0 to 6, 6 to 12, 12 to 18
  and 18 to 24: six wide, contiguous, and together exactly the columns 0 to 23 with no gap
  and no overlap. Consequently, for well-formed segments, distinct patch names and a
  segment whose control array is 24 wide (with one fitted function and one fitted
  derivative per column), the force row of the fourth patch at a sample time is the
  evaluation at that time of the fitted functions of the last six columns, and its
  force-rate row that of their fitted derivatives.
\<close>

theorem patch_ranges_partition:
  fixes phi :: "('a::{zero,times}) phic"
  shows "od_keys range_def = [''RF_patch'', ''LF_patch'', ''RH_patch'', ''LH_patch''] \<and>
   map snd range_def = [[0..<6], [6..<12], [12..<18], [18..<24]] \<and>
   concat (map snd range_def) = [0..<24] \<and>
   (phi_samples polyfitND mass patch_names spls = Inr (t, phi) \<and> (\<forall>s\<in>set spls. wf_interval s) \<and>
    distinct patch_names \<and> ''LH_patch'' \<in> set patch_names \<and>
    k < length spls \<and> j < length (time_trajectory (spls ! k)) \<and>
    polyfitND (time_trajectory (spls ! k)) (control_trajectory (spls ! k)) = Inr (poly_u, dpoly_u) \<and>
    ncols (control_trajectory (spls ! k)) = 24 \<and>
    length poly_u = ncols (control_trajectory (spls ! k)) \<and>
    length dpoly_u = ncols (control_trajectory (spls ! k)) \<longrightarrow>
    (\<exists>F dF. od_get (phi_f phi) ''LH_patch'' = Inr F \<and> od_get (phi_df phi) ''LH_patch'' = Inr dF \<and>
       rows F ! (offset spls k + j) =
         map (\<lambda>q. q (time_trajectory (spls ! k) ! j)) (drop (length poly_u - 6) poly_u) \<and>
       rows dF ! (offset spls k + j) =
         map (\<lambda>q. q (time_trajectory (spls ! k) ! j)) (drop (length dpoly_u - 6) dpoly_u)))"
proof (intro conjI impI)
  show "od_keys range_def = [''RF_patch'', ''LF_patch'', ''RH_patch'', ''LH_patch'']"
    and "map snd range_def = [[0..<6], [6..<12], [12..<18], [18..<24]]"
    and "concat (map snd range_def) = [0..<24]"
    using range_def_partition by blast+
next
  assume h: "phi_samples polyfitND mass patch_names spls = Inr (t, phi) \<and> (\<forall>s\<in>set spls. wf_interval s) \<and>
    distinct patch_names \<and> ''LH_patch'' \<in> set patch_names \<and>
    k < length spls \<and> j < length (time_trajectory (spls ! k)) \<and>
    polyfitND (time_trajectory (spls ! k)) (control_trajectory (spls ! k)) = Inr (poly_u, dpoly_u) \<and>
    ncols (control_trajectory (spls ! k)) = 24 \<and>
    length poly_u = ncols (control_trajectory (spls ! k)) \<and>
    length dpoly_u = ncols (control_trajectory (spls ! k))"
  then have run: "phi_samples polyfitND mass patch_names spls = Inr (t, phi)"
    and wf: "\<forall>s\<in>set spls. wf_interval s" and dist: "distinct patch_names"
    and p: "''LH_patch'' \<in> set patch_names" and k: "k < length spls"
    and j: "j < length (time_trajectory (spls ! k))"
    and fit: "polyfitND (time_trajectory (spls ! k)) (control_trajectory (spls ! k)) = Inr (poly_u, dpoly_u)"
    and lP: "length poly_u = 24" and ldP: "length dpoly_u = 24"
    by simp_all
  from phi_samples_patch[OF run wf dist p k j] obtain F dF where
    F: "od_get (phi_f phi) ''LH_patch'' = Inr F" and dF: "od_get (phi_df phi) ''LH_patch'' = Inr dF"
    and rF: "rows F ! (offset spls k + j) =
       map (\<lambda>i. (fst (projr (polyfitND (time_trajectory (spls ! k)) (control_trajectory (spls ! k)))) ! i)
                   (time_trajectory (spls ! k) ! j)) (projr (od_get range_def ''LH_patch''))"
    and rdF: "rows dF ! (offset spls k + j) =
       map (\<lambda>i. (snd (projr (polyfitND (time_trajectory (spls ! k)) (control_trajectory (spls ! k)))) ! i)
                   (time_trajectory (spls ! k) ! j)) (projr (od_get range_def ''LH_patch''))"
    by blast
  have "rows F ! (offset spls k + j) =
         map (\<lambda>q. q (time_trajectory (spls ! k) ! j)) (drop (length poly_u - 6) poly_u)"
    unfolding rF fit range_def_LH using last_six[OF lP] by (simp only: sum.sel fst_conv)
  moreover have "rows dF ! (offset spls k + j) =
         map (\<lambda>q. q (time_trajectory (spls ! k) ! j)) (drop (length dpoly_u - 6) dpoly_u)"
    unfolding rdF fit range_def_LH using last_six[OF ldP] by (simp only: sum.sel snd_conv)
  ultimately show "\<exists>F dF. od_get (phi_f phi) ''LH_patch'' = Inr F \<and> od_get (phi_df phi) ''LH_patch'' = Inr dF \<and>
       rows F ! (offset spls k + j) =
         map (\<lambda>q. q (time_trajectory (spls ! k) ! j)) (drop (length poly_u - 6) poly_u) \<and>
       rows dF ! (offset spls k + j) =
         map (\<lambda>q. q (time_trajectory (spls ! k) ! j)) (drop (length dpoly_u - 6) dpoly_u)"
    using F dF by blast
qed

lemma four_patch_samples_run:
  "\<not> isl (phi_samples example_fit 2 [''RF_patch'', ''LF_patch'', ''RH_patch'', ''LH_patch'']
            [example_segment [0, 1] 100 24])"
  by code_simp

lemma four_patch_wf: "wf_interval (example_segment [0, 1] 100 24)"
  by code_simp

lemma four_patch_LH_row:
  "rows (projr (od_get (phi_f (snd (projr (phi_samples example_fit 2
        [''RF_patch'', ''LF_patch'', ''RH_patch'', ''LH_patch''] [example_segment [0, 1] 100 24]))))
        ''LH_patch'')) ! 1 = [118, 119, 120, 121, 122, 123]"
  by code_simp

theorem patch_ranges_partition_witness:
  "\<not> isl (phi_samples example_fit 2 [''RF_patch'', ''LF_patch'', ''RH_patch'', ''LH_patch'']
            [example_segment [0, 1] 100 24]) \<and>
   wf_interval (example_segment [0, 1] 100 24) \<and>
   ncols (control_trajectory (example_segment [0, 1] 100 24)) = 24 \<and>
   \<not> isl (example_fit [0, 1] (control_trajectory (example_segment [0, 1] 100 24))) \<and>
   length (fst (projr (example_fit [0, 1] (control_trajectory (example_segment [0, 1] 100 24))))) = 24 \<and>
   (\<exists>F. od_get (phi_f (snd (projr (phi_samples example_fit 2
            [''RF_patch'', ''LF_patch'', ''RH_patch'', ''LH_patch''] [example_segment [0, 1] 100 24]))))
            ''LH_patch'' = Inr F \<and>
        rows F ! 1 = map (\<lambda>q. q 1)
          (drop (length (fst (projr (example_fit [0, 1] (control_trajectory (example_segment [0, 1] 100 24))))) - 6)
             (fst (projr (example_fit [0, 1] (control_trajectory (example_segment [0, 1] 100 24)))))) \<and>
        rows F ! 1 = [118, 119, 120, 121, 122, 123])"
proof -
  let ?ps = "[''RF_patch'', ''LF_patch'', ''RH_patch'', ''LH_patch'']"
  let ?spls = "[example_segment [0, 1] 100 24]"
  let ?u = "control_trajectory (example_segment [0, 1] 100 24)"
  let ?r = "phi_samples example_fit 2 ?ps ?spls"
  let ?f = "example_fit [0, 1] ?u"
  have run: "?r = Inr (fst (projr ?r), snd (projr ?r))"
    using four_patch_samples_run by (cases ?r) simp_all
  have wf: "\<forall>s\<in>set ?spls. wf_interval s" using four_patch_wf by simp
  have dist: "distinct ?ps" by simp
  have p: "''LH_patch'' \<in> set ?ps" by simp
  have k: "0 < length ?spls" by simp
  have tm: "time_trajectory (?spls ! 0) = [0, 1]" by (simp add: example_segment_def)
  have j: "1 < length (time_trajectory (?spls ! 0))" unfolding tm by simp
  have fok: "\<not> isl ?f" by code_simp
  then have fit: "example_fit (time_trajectory (?spls ! 0)) (control_trajectory (?spls ! 0)) = Inr (fst (projr ?f), snd (projr ?f))"
    unfolding tm by (cases ?f) simp_all
  have w: "ncols (control_trajectory (?spls ! 0)) = 24" by (simp add: example_segment_def)
  have w': "ncols ?u = 24" by (simp add: example_segment_def)
  have lP: "length (fst (projr ?f)) = ncols (control_trajectory (?spls ! 0))"
    by (simp add: example_fit_def example_segment_def)
  have ldP: "length (snd (projr ?f)) = ncols (control_trajectory (?spls ! 0))"
    by (simp add: example_fit_def example_segment_def)
  have lP': "length (fst (projr ?f)) = 24" using lP w by simp
  have off: "offset ?spls 0 + 1 = 1" by (simp add: offset_def)
  from patch_ranges_partition[of example_fit 2 ?ps ?spls "fst (projr ?r)" "snd (projr ?r)" 0 1
        "fst (projr ?f)" "snd (projr ?f)"]
    run wf dist p k j fit w lP ldP
  obtain F where F: "od_get (phi_f (snd (projr ?r))) ''LH_patch'' = Inr F"
    and rF: "rows F ! (offset ?spls 0 + 1) =
         map (\<lambda>q. q (time_trajectory (?spls ! 0) ! 1)) (drop (length (fst (projr ?f)) - 6) (fst (projr ?f)))"
    by blast
  have t1: "time_trajectory (?spls ! 0) ! 1 = 1" unfolding tm by simp
  from rF have rF': "rows F ! 1 = map (\<lambda>q. q 1) (drop (length (fst (projr ?f)) - 6) (fst (projr ?f)))"
    unfolding off t1 .
  from four_patch_LH_row F have v: "rows F ! 1 = [118, 119, 120, 121, 122, 123]"
    by simp
  from four_patch_samples_run four_patch_wf w' fok lP' F rF' v show ?thesis
    by blast
qed

subsection \<open>When createCentroidalPhi fails\<close>

lemma createCentroidalPhi_error_frame:
  fixes self :: "('a::{zero,times}) wrapper"
  assumes "fst (createCentroidalPhi E fit self rmodel rdata) \<noteq> None"
  shows "fst (snd (createCentroidalPhi E fit self rmodel rdata)) = self"
proof (cases "crba E rmodel rdata (neutral E rmodel)")
  case (Inl e)
  then show ?thesis by (simp add: createCentroidalPhi_def Let_def)
next
  case (Inr Md)
  let ?ps = "od_keys (ee_map self)"
  let ?c = "bindE (mat00 (fst Md)) (\<lambda>mass. centroidal_arrays fit mass ?ps (butlast (ms_interval_data (cs self))))"
  show ?thesis
  proof (cases ?c)
    case (Inl e)
    with Inr show ?thesis by (simp add: createCentroidalPhi_def Let_def)
  next
    case tp: (Inr tp)
    then obtain s :: "'a list \<times> 'a phic" and fd where
      fd: "PhiC2_dicts (snd s) (findDuplicates (fst s)) ?ps ([], []) = Inr fd"
      and f: "phi_f (snd tp) = fst fd" "phi_df (snd tp) = snd fd"
      by (auto simp: bindE_eq_Inr centroidal_arrays_def PhiC2_def Let_def)
    have "\<forall>p\<in>set ?ps. (\<exists>A. od_get (phi_f (snd tp)) p = Inr A) \<and> (\<exists>B. od_get (phi_df (snd tp)) p = Inr B)"
      using PhiC2_dicts_get[OF fd] unfolding f by simp
    from assign_forces_ok[OF this] have "fst (createCentroidalPhi E fit self rmodel rdata) = None"
      using Inr tp by (simp add: createCentroidalPhi_def Let_def)
    with assms show ?thesis by simp
  qed
qed

lemma fill_segment_requires:
  assumes run: "fill_segment fit mass ps t n phi spl = Inr r" and wf: "wf_interval spl"
    and tk: "take (length (time_trajectory spl)) (drop n t) = time_trajectory spl"
  shows "time_trajectory spl \<noteq> [] \<longrightarrow>
     (\<exists>ft. fit (time_trajectory spl) (control_trajectory spl) = Inr ft \<and>
        (\<forall>p\<in>set ps. \<exists>r. od_get range_def p = Inr r \<and>
             (\<forall>i\<in>set r. i < length (fst ft) \<and> i < length (snd ft))))"
proof
  assume ne: "time_trajectory spl \<noteq> []"
  let ?nt = "length (time_trajectory spl)" and ?tt = "time_trajectory spl"
  from wf have nx: "nrows (state_trajectory spl) = ?nt" by (simp add: wf_interval_def)
  from run obtain ft fd where
    ft: "fit ?tt (control_trajectory spl) = Inr ft"
    and fd: "fill_patches (fst ft) (snd ft) ?tt n ?nt ps (phi_f phi, phi_df phi) = Inr fd"
    by (rule fill_segment_InrE) (simp add: nx tk)
  have "\<exists>r. od_get range_def p = Inr r \<and> (\<forall>i\<in>set r. i < length (fst ft) \<and> i < length (snd ft))"
    if p: "p \<in> set ps" for p
  proof -
    from fill_patches_requires[OF fd p] obtain F dF where
      F: "patch_rows (fst ft) p ?tt = Inr F" and dF: "patch_rows (snd ft) p ?tt = Inr dF" by blast
    from patch_rows_Inr[OF F ne] obtain r where r: "od_get range_def p = Inr r"
      and a: "\<forall>i\<in>set r. i < length (fst ft)" by blast
    from patch_rows_Inr[OF dF ne] r have b: "\<forall>i\<in>set r. i < length (snd ft)" by auto
    from r a b show ?thesis by blast
  qed
  with ft show "\<exists>ft. fit ?tt (control_trajectory spl) = Inr ft \<and>
        (\<forall>p\<in>set ps. \<exists>r. od_get range_def p = Inr r \<and>
             (\<forall>i\<in>set r. i < length (fst ft) \<and> i < length (snd ft)))"
    by blast
qed

lemma createCentroidalPhi_requires:
  assumes ok: "fst (createCentroidalPhi E fit self rmodel rdata) = None"
    and wf: "\<forall>s\<in>set (butlast (ms_interval_data (cs self))). wf_interval s"
    and s: "s \<in> set (butlast (ms_interval_data (cs self)))" and ne: "time_trajectory s \<noteq> []"
  shows "\<exists>ft. fit (time_trajectory s) (control_trajectory s) = Inr ft \<and>
        (\<forall>p\<in>set (od_keys (ee_map self)). \<exists>r. od_get range_def p = Inr r \<and>
             (\<forall>i\<in>set r. i < length (fst ft) \<and> i < length (snd ft)))"
proof -
  let ?R = "createCentroidalPhi E fit self rmodel rdata"
  from ok have "?R = (None, fst (snd ?R), snd (snd ?R))" by (simp add: prod_eq_iff)
  from createCentroidalPhi_returns[OF this] obtain mass t phi where
    run: "phi_samples fit mass (od_keys (ee_map self)) (butlast (ms_interval_data (cs self))) = Inr (t, phi)"
    by blast
  have "\<forall>s\<in>set (butlast (ms_interval_data (cs self))). time_trajectory s \<noteq> [] \<longrightarrow>
     (\<exists>ft. fit (time_trajectory s) (control_trajectory s) = Inr ft \<and>
        (\<forall>p\<in>set (od_keys (ee_map self)). \<exists>r. od_get range_def p = Inr r \<and>
             (\<forall>i\<in>set r. i < length (fst ft) \<and> i < length (snd ft))))"
    by (rule phi_samples_all[OF _ run wf]) (rule fill_segment_requires)
  with s ne show ?thesis by blast
qed

end
